theory Spec2Isabelle
  imports Main
begin

section \<open>Python strings\<close>

text \<open>
  A Python \<open>str\<close> is a sequence of Unicode code points, so a string is a list of
  code points here (not of bytes: the month names and the tokens are Cyrillic).
\<close>

type_synonym cp = nat
type_synonym pystr = "cp list"

definition ascii :: "string \<Rightarrow> pystr" where
  "ascii s = map of_char s"

text \<open>
  The methods \<open>str.lower\<close>, \<open>str.isspace\<close>, \<open>str.isdigit\<close>, \<open>str.isalnum\<close> and the
  regular-expression class \<open>\d\<close> (with the value \<open>int\<close> gives the digit) read the
  Unicode character database of the interpreter. The database is a parameter of every
  function that consults it. \<open>u_lower\<close> acts on whole strings, as \<open>str.lower\<close> does
  (it is context dependent and may change the length).
\<close>

record unicode =
  u_lower :: "pystr \<Rightarrow> pystr"
  u_isspace :: "cp \<Rightarrow> bool"
  u_isdigit :: "cp \<Rightarrow> bool"
  u_isalnum :: "cp \<Rightarrow> bool"
  u_decimal :: "cp \<Rightarrow> nat option"

text \<open>
  The rows of the database for Basic Latin (U+0000 to U+007F) and for the Cyrillic
  letters U+0400 to U+045F, with the complete list of white-space code points. The
  concrete examples below only use code points of these two ranges.
\<close>

definition ucd_lower_char :: "cp \<Rightarrow> cp" where
  "ucd_lower_char c =
     (if 0x41 \<le> c \<and> c \<le> 0x5A then c + 0x20
      else if 0x410 \<le> c \<and> c \<le> 0x42F then c + 0x20
      else if 0x400 \<le> c \<and> c \<le> 0x40F then c + 0x50
      else c)"

definition ucd_isspace :: "cp \<Rightarrow> bool" where
  "ucd_isspace c =
     ((0x09 \<le> c \<and> c \<le> 0x0D) \<or> (0x1C \<le> c \<and> c \<le> 0x20) \<or> c = 0x85 \<or> c = 0xA0
      \<or> c = 0x1680 \<or> (0x2000 \<le> c \<and> c \<le> 0x200A) \<or> c = 0x2028 \<or> c = 0x2029
      \<or> c = 0x202F \<or> c = 0x205F \<or> c = 0x3000)"

definition ucd_isdigit :: "cp \<Rightarrow> bool" where
  "ucd_isdigit c = (0x30 \<le> c \<and> c \<le> 0x39)"

definition ucd_isalnum :: "cp \<Rightarrow> bool" where
  "ucd_isalnum c =
     ((0x30 \<le> c \<and> c \<le> 0x39) \<or> (0x41 \<le> c \<and> c \<le> 0x5A) \<or> (0x61 \<le> c \<and> c \<le> 0x7A)
      \<or> (0x400 \<le> c \<and> c \<le> 0x45F))"

definition ucd_decimal :: "cp \<Rightarrow> nat option" where
  "ucd_decimal c = (if 0x30 \<le> c \<and> c \<le> 0x39 then Some (c - 0x30) else None)"

definition ucd :: unicode where
  "ucd = \<lparr> u_lower = map ucd_lower_char, u_isspace = ucd_isspace,
           u_isdigit = ucd_isdigit, u_isalnum = ucd_isalnum, u_decimal = ucd_decimal \<rparr>"

text \<open>\<open>str.strip()\<close>: drop the white space at both ends.\<close>

definition py_strip :: "unicode \<Rightarrow> pystr \<Rightarrow> pystr" where
  "py_strip U s = rev (dropWhile (u_isspace U) (rev (dropWhile (u_isspace U) s)))"

text \<open>
  \<open>str.split()\<close> with no argument: one left-to-right scan, a token is a maximal run of
  characters that are not white space; no empty token is produced. \<open>cur\<close> is the token
  being read.
\<close>

fun split_scan :: "unicode \<Rightarrow> pystr \<Rightarrow> pystr \<Rightarrow> pystr list" where
  "split_scan U cur [] = (if cur = [] then [] else [cur])"
| "split_scan U cur (c # cs) =
     (if u_isspace U c
      then (if cur = [] then split_scan U [] cs else cur # split_scan U [] cs)
      else split_scan U (cur @ [c]) cs)"

definition py_split :: "unicode \<Rightarrow> pystr \<Rightarrow> pystr list" where
  "py_split U s = split_scan U [] s"

text \<open>\<open>sep.join(xs)\<close>.\<close>

fun py_join :: "pystr \<Rightarrow> pystr list \<Rightarrow> pystr" where
  "py_join sep [] = []"
| "py_join sep [x] = x"
| "py_join sep (x # y # ys) = x @ sep @ py_join sep (y # ys)"

section \<open>lab\_6\_pipeline: tokens and sentences\<close>

record ConlluToken =
  tok_text :: pystr

record ConlluSentence =
  sent_position :: int
  sent_text :: pystr
  sent_tokens :: "ConlluToken list"

text \<open>
  \<open>ConlluToken.get_cleaned\<close>: the loop over \<open>self._text.lower().strip()\<close> that appends
  every symbol with \<open>isalnum()\<close> to \<open>string\<close>.
\<close>

fun cleaned_loop :: "unicode \<Rightarrow> pystr \<Rightarrow> pystr \<Rightarrow> pystr" where
  "cleaned_loop U string [] = string"
| "cleaned_loop U string (symbol # rest) =
     (if u_isalnum U symbol then cleaned_loop U (string @ [symbol]) rest
      else cleaned_loop U string rest)"

definition get_cleaned :: "unicode \<Rightarrow> ConlluToken \<Rightarrow> pystr" where
  "get_cleaned U token = cleaned_loop U [] (py_strip U (u_lower U (tok_text token)))"

definition get_tokens :: "ConlluSentence \<Rightarrow> ConlluToken list" where
  "get_tokens s = sent_tokens s"

text \<open>
  The loop shared by \<open>get_conllu_text\<close> and \<open>get_cleaned_sentence\<close>: a token is
  appended, stripped, when its stripped cleaned form has positive length.
\<close>

fun collect_cleaned :: "unicode \<Rightarrow> pystr list \<Rightarrow> ConlluToken list \<Rightarrow> pystr list" where
  "collect_cleaned U acc [] = acc"
| "collect_cleaned U acc (token # rest) =
     (if length (py_strip U (get_cleaned U token)) > 0
      then collect_cleaned U (acc @ [py_strip U (get_cleaned U token)]) rest
      else collect_cleaned U acc rest)"

definition get_conllu_text :: "unicode \<Rightarrow> ConlluSentence \<Rightarrow> bool \<Rightarrow> pystr" where
  "get_conllu_text U s include_morphological_tags =
     (let no_punctuation_sentence = collect_cleaned U [] (get_tokens s)
      in py_strip U (py_join (ascii '' '') no_punctuation_sentence))"

definition get_cleaned_sentence :: "unicode \<Rightarrow> ConlluSentence \<Rightarrow> pystr" where
  "get_cleaned_sentence U s =
     (let cleaned_sentence = collect_cleaned U [] (get_tokens s)
      in py_strip U (py_join (ascii '' '') cleaned_sentence))"

section \<open>Exceptions\<close>

datatype error =
    IncorrectSeedURLError
  | NumberOfArticlesOutOfRangeError
  | IncorrectNumberOfArticlesError
  | IncorrectHeadersError
  | IncorrectEncodingError
  | IncorrectTimeoutError
  | IncorrectVerifyError
  | InconsistentDatasetError
  | EmptyDirectoryError
  | FileNotFoundError
  | NotADirectoryError
  | ValueError
  | AttributeError
  | RequestException

section \<open>lab\_5\_scrapper: the configuration\<close>

text \<open>
  The values \<open>json.load\<close> produces. Of a float only the type is ever inspected. A
  \<open>bool\<close> is an \<open>int\<close> for \<open>isinstance\<close>, with the values 0 and 1.
\<close>

datatype pyval =
    PNone
  | PBool bool
  | PInt int
  | PFloat
  | PStr pystr
  | PList "pyval list"
  | PDict "(pystr \<times> pyval) list"

fun isinstance_list :: "pyval \<Rightarrow> bool" where
  "isinstance_list (PList _) = True"
| "isinstance_list _ = False"

fun isinstance_str :: "pyval \<Rightarrow> bool" where
  "isinstance_str (PStr _) = True"
| "isinstance_str _ = False"

fun isinstance_bool :: "pyval \<Rightarrow> bool" where
  "isinstance_bool (PBool _) = True"
| "isinstance_bool _ = False"

fun isinstance_int :: "pyval \<Rightarrow> bool" where
  "isinstance_int (PInt _) = True"
| "isinstance_int (PBool _) = True"
| "isinstance_int _ = False"

fun isinstance_dict :: "pyval \<Rightarrow> bool" where
  "isinstance_dict (PDict _) = True"
| "isinstance_dict _ = False"

text \<open>The number an \<open>int\<close> (or \<open>bool\<close>) is compared as; only used after \<open>isinstance_int\<close>.\<close>

fun int_value :: "pyval \<Rightarrow> int" where
  "int_value (PInt n) = n"
| "int_value (PBool b) = (if b then 1 else 0)"
| "int_value _ = 0"

definition startswith :: "pystr \<Rightarrow> pystr \<Rightarrow> bool" where
  "startswith s pre = (take (length pre) s = pre)"

text \<open>
  \<open>re.match(r'https?://.*/', url)\<close>: the literal \<open>http\<close>, an optional \<open>s\<close>, the
  literal \<open>://\<close>, then any characters but a line feed up to some \<open>/\<close>.
\<close>

definition match_after_scheme :: "pystr \<Rightarrow> bool" where
  "match_after_scheme r =
     (startswith r (ascii ''://'') \<and> 0x2F \<in> set (takeWhile (\<lambda>c. c \<noteq> 0x0A) (drop 3 r)))"

definition seed_url_match :: "pystr \<Rightarrow> bool" where
  "seed_url_match url =
     (startswith url (ascii ''http'') \<and>
      ((startswith (drop 4 url) (ascii ''s'') \<and> match_after_scheme (drop 5 url))
       \<or> match_after_scheme (drop 4 url)))"

record ConfigDTO =
  seed_urls :: pyval
  total_articles :: pyval
  headers :: pyval
  encoding :: pyval
  timeout :: pyval
  should_verify_certificate :: pyval
  headless_mode :: pyval

text \<open>The loop over \<open>config_dto.seed_urls\<close>.\<close>

fun validate_seed_urls :: "pyval list \<Rightarrow> error + unit" where
  "validate_seed_urls [] = Inr ()"
| "validate_seed_urls (PStr url # rest) =
     (if \<not> seed_url_match url then Inl IncorrectSeedURLError else validate_seed_urls rest)"
| "validate_seed_urls (_ # rest) = Inl IncorrectSeedURLError"

text \<open>
  The constants of \<open>core_utils.constants\<close> are parameters: the upper limit of the number
  of articles and the two limits of the timeout.
\<close>

record limits =
  NUM_ARTICLES_UPPER_LIMIT :: int
  TIMEOUT_LOWER_LIMIT :: int
  TIMEOUT_UPPER_LIMIT :: int

definition validate_config_content :: "limits \<Rightarrow> ConfigDTO \<Rightarrow> error + unit" where
  "validate_config_content L config_dto =
     (case seed_urls config_dto of
        PList us \<Rightarrow>
          (case validate_seed_urls us of
             Inl e \<Rightarrow> Inl e
           | Inr _ \<Rightarrow>
               if \<not> isinstance_int (total_articles config_dto)
                  \<or> isinstance_bool (total_articles config_dto)
                  \<or> int_value (total_articles config_dto) < 1
               then Inl IncorrectNumberOfArticlesError
               else if int_value (total_articles config_dto) > NUM_ARTICLES_UPPER_LIMIT L
               then Inl NumberOfArticlesOutOfRangeError
               else if \<not> isinstance_dict (headers config_dto)
               then Inl IncorrectHeadersError
               else if \<not> isinstance_str (encoding config_dto)
               then Inl IncorrectEncodingError
               else if \<not> isinstance_int (timeout config_dto)
                  \<or> int_value (timeout config_dto) < TIMEOUT_LOWER_LIMIT L
                  \<or> int_value (timeout config_dto) > TIMEOUT_UPPER_LIMIT L
               then Inl IncorrectTimeoutError
               else if \<not> isinstance_bool (should_verify_certificate config_dto)
                  \<or> \<not> isinstance_bool (headless_mode config_dto)
               then Inl IncorrectVerifyError
               else Inr ())
      | _ \<Rightarrow> Inl IncorrectSeedURLError)"

text \<open>
  The requirements of the specification, field by field, to compare the validation with.
\<close>

fun seed_url_ok :: "pyval \<Rightarrow> bool" where
  "seed_url_ok (PStr url) = seed_url_match url"
| "seed_url_ok _ = False"

fun seed_urls_ok :: "pyval \<Rightarrow> bool" where
  "seed_urls_ok (PList us) = list_all seed_url_ok us"
| "seed_urls_ok _ = False"

fun count_wellformed :: "pyval \<Rightarrow> bool" where
  "count_wellformed (PInt n) = (1 \<le> n)"
| "count_wellformed _ = False"

fun timeout_ok :: "limits \<Rightarrow> pyval \<Rightarrow> bool" where
  "timeout_ok L (PInt n) = (TIMEOUT_LOWER_LIMIT L \<le> n \<and> n \<le> TIMEOUT_UPPER_LIMIT L)"
| "timeout_ok L (PBool b) =
     (TIMEOUT_LOWER_LIMIT L \<le> (if b then 1 else 0) \<and> (if b then 1 else 0) \<le> TIMEOUT_UPPER_LIMIT L)"
| "timeout_ok L _ = False"

section \<open>lab\_5\_scrapper: the crawler\<close>

text \<open>
  An element found by \<open>find_all('a', class_=...)\<close>: what the crawler reads of it is
  \<open>get('href')\<close>, a string or nothing.
\<close>

record Tag =
  href :: "pystr option"

definition extract_url :: "Tag \<Rightarrow> pystr" where
  "extract_url article_bs =
     (case href article_bs of Some h \<Rightarrow> h | None \<Rightarrow> ascii ''url not found'')"

text \<open>
  The inner loop of \<open>find_articles\<close> over the anchors of one seed page. The result is
  the list \<open>self.urls\<close> after the loop and whether \<open>return\<close> was executed.
\<close>

fun scan_page :: "int \<Rightarrow> Tag list \<Rightarrow> pystr list \<Rightarrow> bool \<times> pystr list" where
  "scan_page num_articles [] urls = (False, urls)"
| "scan_page num_articles (paragraph # rest) urls =
     (if int (length urls) \<ge> num_articles then (True, urls)
      else let url = extract_url paragraph in
        if url = [] \<or> url \<in> set urls \<or> url = ascii ''url not found''
        then scan_page num_articles rest urls
        else scan_page num_articles rest (urls @ [ascii ''https://krsk.sibnovosti.ru'' @ url]))"

text \<open>
  The outer loop over the seed URLs. \<open>make_request\<close> followed by the parse and
  \<open>find_all\<close> is the parameter \<open>fetch\<close>: the anchors of the page, or the exception the
  request raised, which leaves \<open>find_articles\<close> with the list as it was.
\<close>

fun find_articles_loop ::
  "(pystr \<Rightarrow> error + Tag list) \<Rightarrow> int \<Rightarrow> pystr list \<Rightarrow> pystr list \<Rightarrow> error option \<times> pystr list"
where
  "find_articles_loop fetch num_articles [] urls = (None, urls)"
| "find_articles_loop fetch num_articles (seed_url # rest) urls =
     (case fetch seed_url of
        Inl e \<Rightarrow> (Some e, urls)
      | Inr anchors \<Rightarrow>
          (case scan_page num_articles anchors urls of
             (True, urls') \<Rightarrow> (None, urls')
           | (False, urls') \<Rightarrow> find_articles_loop fetch num_articles rest urls'))"

record Config =
  cfg_seed_urls :: "pystr list"
  cfg_num_articles :: int

definition get_seed_urls :: "Config \<Rightarrow> pystr list" where
  "get_seed_urls config = cfg_seed_urls config"

definition get_num_articles :: "Config \<Rightarrow> int" where
  "get_num_articles config = cfg_num_articles config"

record Crawler =
  urls :: "pystr list"
  crawler_config :: Config
  crawler_seed_urls :: "pystr list"

definition Crawler_init :: "Config \<Rightarrow> Crawler" where
  "Crawler_init config =
     \<lparr> urls = [], crawler_config = config, crawler_seed_urls = get_seed_urls config \<rparr>"

definition find_articles ::
  "(pystr \<Rightarrow> error + Tag list) \<Rightarrow> Crawler \<Rightarrow> error option \<times> Crawler" where
  "find_articles fetch self =
     (case find_articles_loop fetch (get_num_articles (crawler_config self))
             (crawler_seed_urls self) (urls self) of
        (exc, urls') \<Rightarrow> (exc, self\<lparr>urls := urls'\<rparr>))"

section \<open>Articles\<close>

text \<open>
  What \<open>datetime.datetime.strptime\<close> returns for the format \<open>%Y-%m-%d %H:%M\<close>.
\<close>

record datetime =
  dt_year :: int
  dt_month :: int
  dt_day :: int
  dt_hour :: int
  dt_minute :: int

text \<open>
  The class \<open>Article\<close> of \<open>core_utils.article.article\<close>, with the attributes the two
  labs read and write, and its constructor \<open>Article(url, article_id)\<close>.
\<close>

record Article =
  art_url :: "pystr option"
  art_id :: int
  art_title :: pystr
  art_author :: "pystr list"
  art_topics :: "pystr list"
  art_date :: "datetime option"
  art_text :: pystr

definition Article_init :: "pystr option \<Rightarrow> int \<Rightarrow> Article" where
  "Article_init u i =
     \<lparr> art_url = u, art_id = i, art_title = [], art_author = [], art_topics = [],
       art_date = None, art_text = [] \<rparr>"

section \<open>lab\_5\_scrapper: the date of an article\<close>

text \<open>
  \<open>int(s)\<close> for a string: white space around the number is ignored, one sign may
  precede the digits, and there must be at least one digit, all of them decimal
  digits. (Underscores between digits are not modelled: the strings converted here are
  cut before their first underscore.)
\<close>

definition py_int :: "unicode \<Rightarrow> pystr \<Rightarrow> error + int" where
  "py_int U s =
     (let t = py_strip U s;
          negative = (t \<noteq> [] \<and> hd t = 0x2D);
          d = (if t \<noteq> [] \<and> (hd t = 0x2D \<or> hd t = 0x2B) then tl t else t)
      in if d = [] then Inl ValueError
         else (case those (map (u_decimal U) d) of
                 None \<Rightarrow> Inl ValueError
               | Some ds \<Rightarrow>
                   Inr ((if negative then - 1 else 1) * int (foldl (\<lambda>a x. 10 * a + x) 0 ds))))"


text \<open>
  The regular expression \<open>_strptime\<close> compiles for a format, as far as the format
  \<open>%Y-%m-%d %H:%M\<close> needs it: an atom matches one character (a literal, a range such
  as \<open>[0-2]\<close>, \<open>\d\<close> or \<open>\s\<close>), a group is a choice between sequences of atoms tried
  in order, and white space in the format becomes \<open>\s+\<close>, greedy. \<open>match_items\<close> is
  \<open>re.match\<close>: the first match in backtracking order, with the text of every group and
  the text left after the match.
\<close>

datatype atom = Lit cp | Range cp cp | AnyDigit | AnySpace

fun atom_ok :: "unicode \<Rightarrow> atom \<Rightarrow> cp \<Rightarrow> bool" where
  "atom_ok U (Lit a) c = (c = a)"
| "atom_ok U (Range lo hi) c = (lo \<le> c \<and> c \<le> hi)"
| "atom_ok U AnyDigit c = (u_decimal U c \<noteq> None)"
| "atom_ok U AnySpace c = u_isspace U c"

fun match_atoms :: "unicode \<Rightarrow> atom list \<Rightarrow> pystr \<Rightarrow> pystr option" where
  "match_atoms U [] s = Some s"
| "match_atoms U (a # as) [] = None"
| "match_atoms U (a # as) (c # cs) = (if atom_ok U a c then match_atoms U as cs else None)"

fun first_some :: "('a \<Rightarrow> 'b option) \<Rightarrow> 'a list \<Rightarrow> 'b option" where
  "first_some f [] = None"
| "first_some f (x # xs) = (case f x of Some y \<Rightarrow> Some y | None \<Rightarrow> first_some f xs)"

datatype item = Group "atom list list" | One atom | Many1 atom

fun match_items :: "unicode \<Rightarrow> item list \<Rightarrow> pystr \<Rightarrow> (pystr list \<times> pystr) option" where
  "match_items U [] s = Some ([], s)"
| "match_items U (Group alts # items) s =
     first_some
       (\<lambda>alt. case match_atoms U alt s of
                None \<Rightarrow> None
              | Some rest \<Rightarrow>
                  (case match_items U items rest of
                     None \<Rightarrow> None
                   | Some (groups, r) \<Rightarrow> Some (take (length alt) s # groups, r)))
       alts"
| "match_items U (One a # items) s =
     (case match_atoms U [a] s of None \<Rightarrow> None | Some rest \<Rightarrow> match_items U items rest)"
| "match_items U (Many1 a # items) s =
     first_some (\<lambda>n. match_items U items (drop n s))
       (rev [1 ..< Suc (length (takeWhile (atom_ok U a) s))])"

text \<open>
  The pattern of \<open>%Y-%m-%d %H:%M\<close>:
  \<^verbatim>\<open>(?P<Y>\d\d\d\d)-(?P<m>1[0-2]|0[1-9]|[1-9])-(?P<d>3[0-1]|[1-2]\d|0[1-9]|[1-9]| [1-9])\<close>
  \<^verbatim>\<open>\s+(?P<H>2[0-3]|[0-1]\d|\d):(?P<M>[0-5]\d|\d)\<close>
\<close>

definition format_regex :: "item list" where
  "format_regex =
     [Group [[AnyDigit, AnyDigit, AnyDigit, AnyDigit]],
      One (Lit 0x2D),
      Group [[Lit 0x31, Range 0x30 0x32], [Lit 0x30, Range 0x31 0x39], [Range 0x31 0x39]],
      One (Lit 0x2D),
      Group [[Lit 0x33, Range 0x30 0x31], [Range 0x31 0x32, AnyDigit],
             [Lit 0x30, Range 0x31 0x39], [Range 0x31 0x39], [Lit 0x20, Range 0x31 0x39]],
      Many1 AnySpace,
      Group [[Lit 0x32, Range 0x30 0x33], [Range 0x30 0x31, AnyDigit], [AnyDigit]],
      One (Lit 0x3A),
      Group [[Range 0x30 0x35, AnyDigit], [AnyDigit]]]"

definition is_leap :: "int \<Rightarrow> bool" where
  "is_leap y = (y mod 4 = 0 \<and> (y mod 100 \<noteq> 0 \<or> y mod 400 = 0))"

definition days_in_month :: "int \<Rightarrow> int \<Rightarrow> int" where
  "days_in_month y m =
     (if m = 2 then (if is_leap y then 29 else 28)
      else if m = 4 \<or> m = 6 \<or> m = 9 \<or> m = 11 then 30 else 31)"

text \<open>
  \<open>datetime.datetime.strptime(data_string, '%Y-%m-%d %H:%M')\<close>: no match, text left
  over after the match, and a date that does not exist all raise \<open>ValueError\<close>.
\<close>

definition strptime :: "unicode \<Rightarrow> pystr \<Rightarrow> error + datetime" where
  "strptime U data_string =
     (case match_items U format_regex data_string of
        None \<Rightarrow> Inl ValueError
      | Some (groups, rest) \<Rightarrow>
          if rest \<noteq> [] then Inl ValueError
          else (case map (py_int U) groups of
                  [Inr year, Inr month, Inr day, Inr hour, Inr minute] \<Rightarrow>
                    if 1 \<le> year \<and> year \<le> 9999 \<and> 1 \<le> month \<and> month \<le> 12
                       \<and> 1 \<le> day \<and> day \<le> days_in_month year month
                    then Inr \<lparr> dt_year = year, dt_month = month, dt_day = day,
                               dt_hour = hour, dt_minute = minute \<rparr>
                    else Inl ValueError
                | _ \<Rightarrow> Inl ValueError))"

definition months_collection :: "(pystr \<times> pystr) list" where
  "months_collection =
     [([0x44F, 0x43D, 0x432, 0x430, 0x440, 0x44F], ascii ''01''),
      ([0x444, 0x435, 0x432, 0x440, 0x430, 0x43B, 0x44F], ascii ''02''),
      ([0x43C, 0x430, 0x440, 0x442, 0x430], ascii ''03''),
      ([0x430, 0x43F, 0x440, 0x435, 0x43B, 0x44F], ascii ''04''),
      ([0x43C, 0x430, 0x44F], ascii ''05''),
      ([0x438, 0x44E, 0x43D, 0x44F], ascii ''06''),
      ([0x438, 0x44E, 0x43B, 0x44F], ascii ''07''),
      ([0x430, 0x432, 0x433, 0x443, 0x441, 0x442, 0x430], ascii ''08''),
      ([0x441, 0x435, 0x43D, 0x442, 0x44F, 0x431, 0x440, 0x44F], ascii ''09''),
      ([0x43E, 0x43A, 0x442, 0x44F, 0x431, 0x440, 0x44F], ascii ''10''),
      ([0x43D, 0x43E, 0x44F, 0x431, 0x440, 0x44F], ascii ''11''),
      ([0x434, 0x435, 0x43A, 0x430, 0x431, 0x440, 0x44F], ascii ''12'')]"

definition digits :: "pystr list" where
  "digits = [ascii ''1'', ascii ''2'', ascii ''3'', ascii ''4'', ascii ''5'', ascii ''6'',
             ascii ''7'', ascii ''8'', ascii ''9'']"

text \<open>\<open>str.isdigit()\<close>: at least one character, and every character a digit.\<close>

definition py_isdigit :: "unicode \<Rightarrow> pystr \<Rightarrow> bool" where
  "py_isdigit U s = (s \<noteq> [] \<and> list_all (u_isdigit U) s)"

text \<open>
  The loop of \<open>unify_date_format\<close> over the tokens, on the strings \<open>month\<close>, \<open>day\<close> and
  \<open>time\<close>.
\<close>

fun date_loop :: "unicode \<Rightarrow> pystr \<times> pystr \<times> pystr \<Rightarrow> pystr list \<Rightarrow> pystr \<times> pystr \<times> pystr" where
  "date_loop U (month, day, time) [] = (month, day, time)"
| "date_loop U (month, day, time) (element # rest) =
     (let time1 = (if 0x3A \<in> set element then time @ element else time);
          month1 = (case map_of months_collection element of
                      Some v \<Rightarrow> month @ v
                    | None \<Rightarrow> month);
          day1 = (if py_isdigit U element \<and> element \<in> set digits
                  then day @ ascii ''0'' @ element else day);
          day2 = (if py_isdigit U element \<and> element \<notin> set digits
                  then day1 @ element else day1)
      in date_loop U (month1, day2, time1) rest)"

text \<open>The string \<open>correct_date\<close> and its day field \<open>day[:2]\<close>.\<close>

definition day_field :: "unicode \<Rightarrow> pystr \<Rightarrow> pystr" where
  "day_field U date_str =
     (case date_loop U ([], [], []) (py_split U (u_lower U date_str)) of
        (month, day, time) \<Rightarrow> take 2 day)"

definition correct_date :: "unicode \<Rightarrow> pystr \<Rightarrow> pystr" where
  "correct_date U date_str =
     (case date_loop U ([], [], []) (py_split U (u_lower U date_str)) of
        (month, day, time) \<Rightarrow>
          ascii ''2023'' @ ascii ''-'' @ month @ ascii ''-'' @ take 2 day @ ascii '' '' @ time)"

definition unify_date_format :: "unicode \<Rightarrow> pystr \<Rightarrow> error + datetime" where
  "unify_date_format U date_str = strptime U (correct_date U date_str)"

section \<open>lab\_5\_scrapper: the parser of an article\<close>

text \<open>
  What \<open>_fill_article_with_meta_information\<close> reads of the page: for each of its five
  \<open>find\<close> calls, in the order of the source, the text of the element found, or nothing
  when \<open>find\<close> returns \<open>None\<close> (the access to \<open>.text\<close> then raises \<open>AttributeError\<close>).
\<close>

record ArticleSoup =
  find_title :: "pystr option"
  find_author :: "pystr option"
  find_active :: "pystr option"
  find_year :: "pystr option"
  find_hour :: "pystr option"

text \<open>
  The method assigns to \<open>self.article\<close> as it goes, so an exception leaves the fields
  assigned before it: the result is the exception raised, if any, and the article.
\<close>

definition fill_article_with_meta_information ::
  "unicode \<Rightarrow> ArticleSoup \<Rightarrow> Article \<Rightarrow> error option \<times> Article" where
  "fill_article_with_meta_information U article_soup article =
     (case find_title article_soup of
        None \<Rightarrow> (Some AttributeError, article)
      | Some title_text \<Rightarrow>
     let article1 = article\<lparr>art_title := py_strip U title_text\<rparr> in
     (case find_author article_soup of
        None \<Rightarrow> (Some AttributeError, article1)
      | Some author_text \<Rightarrow>
     let article2 = article1\<lparr>art_author :=
           (if author_text = [] then [ascii ''NOT FOUND''] else [author_text])\<rparr> in
     (case find_active article_soup of
        None \<Rightarrow> (Some AttributeError, article2)
      | Some topic \<Rightarrow>
     let article3 = article2\<lparr>art_topics := art_topics article2 @ [topic]\<rparr> in
     (case find_year article_soup of
        None \<Rightarrow> (Some AttributeError, article3)
      | Some date \<Rightarrow>
     (case find_hour article_soup of
        None \<Rightarrow> (Some AttributeError, article3)
      | Some hour_text \<Rightarrow>
     let hour = filter (\<lambda>c. c \<noteq> 0x2C) hour_text;
         date_str = hour @ ascii '' '' @ date in
     (case unify_date_format U date_str of
        Inl e \<Rightarrow> (Some e, article3)
      | Inr d \<Rightarrow> (None, article3\<lparr>art_date := Some d\<rparr>)))))))"

section \<open>lab\_6\_pipeline: sentences of a text\<close>

text \<open>\<open>list.index(x)\<close>: the position of the first element equal to \<open>x\<close>, if there is one.\<close>

fun py_index :: "'a list \<Rightarrow> 'a \<Rightarrow> nat option" where
  "py_index [] x = None"
| "py_index (y # ys) x = (if y = x then Some 0 else map_option Suc (py_index ys x))"

text \<open>
  The loop of \<open>_process\<close> over \<open>sentences\<close>; \<open>index\<close> raises \<open>ValueError\<close> for a value
  that is not in the list.
\<close>

fun process_loop ::
  "unicode \<Rightarrow> pystr list \<Rightarrow> ConlluSentence list \<Rightarrow> pystr list \<Rightarrow> error + ConlluSentence list"
where
  "process_loop U sentences conllu_sentences [] = Inr conllu_sentences"
| "process_loop U sentences conllu_sentences (sentence # rest) =
     (let tokens = map (\<lambda>word. \<lparr>tok_text = py_strip U word\<rparr>) (py_split U sentence) in
      case py_index sentences sentence of
        None \<Rightarrow> Inl ValueError
      | Some i \<Rightarrow>
          process_loop U sentences
            (conllu_sentences @
               [\<lparr>sent_position = int i + 1, sent_text = sentence, sent_tokens = tokens\<rparr>])
            rest)"

text \<open>
  \<open>MorphologicalAnalysisPipeline._process\<close>; \<open>split_by_sentence\<close> of
  \<open>core_utils.article.article\<close> is a parameter.
\<close>

definition process ::
  "unicode \<Rightarrow> (pystr \<Rightarrow> pystr list) \<Rightarrow> pystr \<Rightarrow> error + ConlluSentence list" where
  "process U split_by_sentence text =
     (let sentences = split_by_sentence text in process_loop U sentences [] sentences)"

section \<open>lab\_6\_pipeline: the corpus manager\<close>

text \<open>
  What the manager sees of its path: it does not exist, it is not a directory, or it is
  a directory with its entries in the order \<open>iterdir\<close> and \<open>glob\<close> list them. Of an
  entry it reads the name, the size and, through \<open>from_raw\<close>, the text.
\<close>

record Entry =
  entry_name :: pystr
  st_size :: nat
  entry_text :: pystr

datatype Path = NoSuchPath | NotDirectory | Directory "Entry list"

definition endswith :: "pystr \<Rightarrow> pystr \<Rightarrow> bool" where
  "endswith s suf = (length suf \<le> length s \<and> drop (length s - length suf) s = suf)"

text \<open>\<open>self.path.glob('*_raw.txt')\<close>.\<close>

fun glob_raw :: "Path \<Rightarrow> Entry list" where
  "glob_raw (Directory es) = filter (\<lambda>f. endswith (entry_name f) (ascii ''_raw.txt'')) es"
| "glob_raw _ = []"

text \<open>\<open>int(file.name[:file.name.index('_')])\<close>; \<open>index\<close> raises when there is no underscore.\<close>

definition id_of_name :: "unicode \<Rightarrow> pystr \<Rightarrow> error + int" where
  "id_of_name U name =
     (if 0x5F \<in> set name then py_int U (takeWhile (\<lambda>c. c \<noteq> 0x5F) name) else Inl ValueError)"

fun check_sizes :: "Entry list \<Rightarrow> error + unit" where
  "check_sizes [] = Inr ()"
| "check_sizes (file # rest) =
     (if st_size file = 0 then Inl InconsistentDatasetError else check_sizes rest)"

fun list_of_ids :: "unicode \<Rightarrow> Entry list \<Rightarrow> error + int list" where
  "list_of_ids U [] = Inr []"
| "list_of_ids U (file # rest) =
     (case id_of_name U (entry_name file) of
        Inl e \<Rightarrow> Inl e
      | Inr i \<Rightarrow> (case list_of_ids U rest of Inl e \<Rightarrow> Inl e | Inr ids \<Rightarrow> Inr (i # ids)))"

definition validate_dataset :: "unicode \<Rightarrow> Path \<Rightarrow> error + unit" where
  "validate_dataset U path =
     (case path of
        NoSuchPath \<Rightarrow> Inl FileNotFoundError
      | NotDirectory \<Rightarrow> Inl NotADirectoryError
      | Directory es \<Rightarrow>
          if es = [] then Inl EmptyDirectoryError
          else let raw_files = glob_raw path in
            (case check_sizes raw_files of
               Inl e \<Rightarrow> Inl e
             | Inr _ \<Rightarrow>
                 (case list_of_ids U raw_files of
                    Inl e \<Rightarrow> Inl e
                  | Inr ids \<Rightarrow>
                      if sort ids \<noteq> [1 .. int (length ids)] then Inl InconsistentDatasetError
                      else Inr ())))"

text \<open>
  Modelled from the spec: \<open>from_raw\<close> of \<open>core_utils.article.io\<close> is not among the
  sources. The record it returns for a raw file is the one persisted under the ID of
  the file name, with the raw text as its body.
\<close>

definition from_raw :: "unicode \<Rightarrow> Entry \<Rightarrow> error + Article" where
  "from_raw U file =
     (case id_of_name U (entry_name file) of
        Inl e \<Rightarrow> Inl e
      | Inr i \<Rightarrow> Inr ((Article_init None i)\<lparr>art_text := entry_text file\<rparr>))"

fun scan_loop :: "unicode \<Rightarrow> (int \<rightharpoonup> Article) \<Rightarrow> Entry list \<Rightarrow> error + (int \<rightharpoonup> Article)" where
  "scan_loop U storage [] = Inr storage"
| "scan_loop U storage (file # rest) =
     (case from_raw U file of
        Inl e \<Rightarrow> Inl e
      | Inr article \<Rightarrow> scan_loop U (storage(art_id article \<mapsto> article)) rest)"

definition scan_dataset :: "unicode \<Rightarrow> Path \<Rightarrow> (int \<rightharpoonup> Article) \<Rightarrow> error + (int \<rightharpoonup> Article)" where
  "scan_dataset U path storage = scan_loop U storage (glob_raw path)"

text \<open>\<open>CorpusManager(path)\<close>: the storage of the manager, or the exception raised.\<close>

definition CorpusManager_init :: "unicode \<Rightarrow> Path \<Rightarrow> error + (int \<rightharpoonup> Article)" where
  "CorpusManager_init U path =
     (case validate_dataset U path of
        Inl e \<Rightarrow> Inl e
      | Inr _ \<Rightarrow> scan_dataset U path Map.empty)"

section \<open>Facts about strings\<close>

lemma cleaned_loop_filter:
  "cleaned_loop U acc s = acc @ filter (u_isalnum U) s"
  by (induction s arbitrary: acc) simp_all

lemma filter_dropWhile_disjoint:
  assumes "\<And>c. P c \<Longrightarrow> \<not> Q c"
  shows "filter Q (dropWhile P s) = filter Q s"
  using assms by (induction s) auto

lemma filter_strip:
  assumes "\<And>c. u_isspace U c \<Longrightarrow> \<not> u_isalnum U c"
  shows "filter (u_isalnum U) (py_strip U s) = filter (u_isalnum U) s"
proof -
  have "filter (u_isalnum U) (py_strip U s)
      = rev (filter (u_isalnum U) (dropWhile (u_isspace U) (rev (dropWhile (u_isspace U) s))))"
    by (simp add: py_strip_def rev_filter)
  also have "\<dots> = rev (filter (u_isalnum U) (rev (dropWhile (u_isspace U) s)))"
    using assms by (simp add: filter_dropWhile_disjoint)
  also have "\<dots> = filter (u_isalnum U) (dropWhile (u_isspace U) s)"
    by (simp add: rev_filter)
  also have "\<dots> = filter (u_isalnum U) s"
    using assms by (simp add: filter_dropWhile_disjoint)
  finally show ?thesis .
qed

lemma strip_no_space:
  assumes "\<forall>c \<in> set s. \<not> u_isspace U c"
  shows "py_strip U s = s"
proof -
  have a: "dropWhile (u_isspace U) s = s"
    using assms by (cases s) auto
  have b: "dropWhile (u_isspace U) (rev s) = rev s"
    using assms by (cases "rev s") auto
  show ?thesis by (simp add: py_strip_def a b)
qed

lemma strip_ends:
  assumes "s = [] \<or> (\<not> u_isspace U (hd s) \<and> \<not> u_isspace U (last s))"
  shows "py_strip U s = s"
proof (cases s)
  case Nil
  then show ?thesis by (simp add: py_strip_def)
next
  case (Cons c cs)
  with assms have h: "\<not> u_isspace U (hd s)" and l: "\<not> u_isspace U (last s)" by auto
  have a: "dropWhile (u_isspace U) s = s"
    using h Cons by simp
  have "rev s \<noteq> []" using Cons by simp
  then obtain d ds where r: "rev s = d # ds" by (cases "rev s") auto
  then have "d = last s" using Cons by (metis last_rev list.sel(1) rev_rev_ident rev_is_Nil_conv list.distinct(1))
  then have "\<not> u_isspace U d" using l by simp
  then have b: "dropWhile (u_isspace U) (rev s) = rev s"
    unfolding r by simp
  show ?thesis by (simp add: py_strip_def a b)
qed

lemma hd_join:
  "x \<noteq> [] \<Longrightarrow> hd (py_join sep (x # xs)) = hd x"
  by (cases xs) simp_all

lemma join_nonempty:
  "x \<noteq> [] \<Longrightarrow> py_join sep (x # xs) \<noteq> []"
  by (cases xs) simp_all

lemma join_last_nonempty:
  "xs \<noteq> [] \<Longrightarrow> last xs \<noteq> [] \<Longrightarrow> py_join sep xs \<noteq> []"
  by (induction sep xs rule: py_join.induct) simp_all

lemma last_join:
  "xs \<noteq> [] \<Longrightarrow> last xs \<noteq> [] \<Longrightarrow> last (py_join sep xs) = last (last xs)"
proof (induction sep xs rule: py_join.induct)
  case (3 sep x y ys)
  then have "py_join sep (y # ys) \<noteq> []"
    by (intro join_last_nonempty) simp_all
  with 3 show ?case by simp
qed simp_all

lemma strip_join_words:
  assumes "\<forall>w \<in> set ws. w \<noteq> [] \<and> (\<forall>c \<in> set w. \<not> u_isspace U c)"
  shows "py_strip U (py_join sep ws) = py_join sep ws"
proof (cases ws)
  case Nil
  then show ?thesis by (simp add: py_strip_def)
next
  case (Cons x xs)
  have x: "x \<noteq> []" "\<not> u_isspace U (hd x)"
    using assms Cons by auto
  have "last ws \<in> set ws" using Cons by simp
  then have l: "last ws \<noteq> []" "\<not> u_isspace U (last (last ws))"
    using assms by auto
  have "hd (py_join sep ws) = hd x"
    using x Cons by (simp add: hd_join)
  moreover have "last (py_join sep ws) = last (last ws)"
    using l Cons by (simp add: last_join)
  ultimately show ?thesis
    using x l by (intro strip_ends) simp
qed

lemma get_cleaned_filter:
  assumes "\<And>c. u_isspace U c \<Longrightarrow> \<not> u_isalnum U c"
  shows "get_cleaned U token = filter (u_isalnum U) (u_lower U (tok_text token))"
  using assms by (simp add: get_cleaned_def cleaned_loop_filter filter_strip)

lemma strip_get_cleaned:
  assumes "\<And>c. u_isspace U c \<Longrightarrow> \<not> u_isalnum U c"
  shows "py_strip U (get_cleaned U token) = get_cleaned U token"
proof -
  have "\<forall>c \<in> set (get_cleaned U token). \<not> u_isspace U c"
    using assms by (auto simp: get_cleaned_filter [OF assms])
  then show ?thesis by (rule strip_no_space)
qed

lemma collect_cleaned_filter:
  assumes "\<And>c. u_isspace U c \<Longrightarrow> \<not> u_isalnum U c"
  shows "collect_cleaned U acc ts = acc @ filter (\<lambda>w. w \<noteq> []) (map (get_cleaned U) ts)"
  by (induction ts arbitrary: acc) (simp_all add: strip_get_cleaned [OF assms])

lemma cleaned_sentence_join:
  assumes "\<And>c. u_isspace U c \<Longrightarrow> \<not> u_isalnum U c"
  shows "get_cleaned_sentence U s =
         py_join (ascii '' '') (filter (\<lambda>w. w \<noteq> []) (map (get_cleaned U) (get_tokens s)))"
proof -
  let ?ws = "filter (\<lambda>w. w \<noteq> []) (map (get_cleaned U) (get_tokens s))"
  have "\<forall>w \<in> set ?ws. w \<noteq> [] \<and> (\<forall>c \<in> set w. \<not> u_isspace U c)"
    using assms by (auto simp: get_cleaned_filter [OF assms])
  then have "py_strip U (py_join (ascii '' '') ?ws) = py_join (ascii '' '') ?ws"
    by (rule strip_join_words)
  then show ?thesis
    by (simp add: get_cleaned_sentence_def collect_cleaned_filter [OF assms])
qed

lemma ucd_space_not_alnum: "u_isspace ucd c \<Longrightarrow> \<not> u_isalnum ucd c"
  by (auto simp: ucd_def ucd_isspace_def ucd_isalnum_def)

section \<open>Token cleaning and the cleaned sentence\<close>

text \<open>
  C9. \<open>get_cleaned\<close> lowercases the surface text and keeps exactly its alphanumeric
  characters (the \<open>strip()\<close> in between removes nothing that would be kept, because no
  white-space character is alphanumeric); the cleaned form of the greeting \<open>Privet!\<close> written in
  Cyrillic (U+041F U+0440 U+0438 U+0432 U+0435 U+0442 U+0021) is its six letters in
  lowercase, the cleaned form of \<open>"..."\<close> is empty; \<open>get_cleaned_sentence\<close> is the
  space-joined list of the non-empty cleaned forms of the tokens, in order, so a token
  whose cleaned form is empty can be removed from the sentence without changing it.
\<close>

theorem token_cleaning:
  "(\<forall>c. u_isspace U c \<longrightarrow> \<not> u_isalnum U c) \<Longrightarrow>
     get_cleaned U token = filter (u_isalnum U) (u_lower U (tok_text token))
   \<and> get_cleaned_sentence U s =
       py_join (ascii '' '') (filter (\<lambda>w. w \<noteq> []) (map (get_cleaned U) (get_tokens s)))
   \<and> (get_cleaned U token = [] \<longrightarrow>
        get_cleaned_sentence U (s\<lparr>sent_tokens := before @ token # after\<rparr>) =
        get_cleaned_sentence U (s\<lparr>sent_tokens := before @ after\<rparr>))
   \<and> get_cleaned ucd \<lparr>tok_text = [0x41F, 0x440, 0x438, 0x432, 0x435, 0x442, 0x21]\<rparr>
       = [0x43F, 0x440, 0x438, 0x432, 0x435, 0x442]
   \<and> get_cleaned ucd \<lparr>tok_text = ascii ''...''\<rparr> = []"
proof -
  assume "\<forall>c. u_isspace U c \<longrightarrow> \<not> u_isalnum U c"
  then have h: "\<And>c. u_isspace U c \<Longrightarrow> \<not> u_isalnum U c" by blast
  have 1: "get_cleaned U token = filter (u_isalnum U) (u_lower U (tok_text token))"
    by (rule get_cleaned_filter [OF h])
  have 2: "get_cleaned_sentence U s =
       py_join (ascii '' '') (filter (\<lambda>w. w \<noteq> []) (map (get_cleaned U) (get_tokens s)))"
    by (rule cleaned_sentence_join [OF h])
  have 3: "get_cleaned U token = [] \<longrightarrow>
        get_cleaned_sentence U (s\<lparr>sent_tokens := before @ token # after\<rparr>) =
        get_cleaned_sentence U (s\<lparr>sent_tokens := before @ after\<rparr>)"
    by (simp add: cleaned_sentence_join [OF h] get_tokens_def)
  have 4: "get_cleaned ucd \<lparr>tok_text = [0x41F, 0x440, 0x438, 0x432, 0x435, 0x442, 0x21]\<rparr>
       = [0x43F, 0x440, 0x438, 0x432, 0x435, 0x442]"
    by (simp add: get_cleaned_def py_strip_def ucd_def ucd_lower_char_def ucd_isalnum_def
        ucd_isspace_def)
  have 5: "get_cleaned ucd \<lparr>tok_text = ascii ''...''\<rparr> = []"
    by (simp add: get_cleaned_def py_strip_def ucd_def ucd_lower_char_def ucd_isalnum_def
        ucd_isspace_def ascii_def)
  from 1 2 3 4 5 show ?thesis by blast
qed

text \<open>
  The theorem at the sentence of the three tokens \<open>"Hi!"\<close>, \<open>"..."\<close>, \<open>"You"\<close>: the
  cleaned sentence is \<open>"hi you"\<close>, with or without the middle token.
\<close>

theorem token_cleaning_witness:
  "get_cleaned ucd \<lparr>tok_text = ascii ''...''\<rparr> = []
   \<and> get_cleaned_sentence ucd
       \<lparr>sent_position = 1, sent_text = ascii ''Hi! ... You'',
        sent_tokens = [\<lparr>tok_text = ascii ''Hi!''\<rparr>, \<lparr>tok_text = ascii ''...''\<rparr>,
                       \<lparr>tok_text = ascii ''You''\<rparr>]\<rparr>
     = ascii ''hi you''
   \<and> get_cleaned_sentence ucd
       \<lparr>sent_position = 1, sent_text = ascii ''Hi! ... You'',
        sent_tokens = [\<lparr>tok_text = ascii ''Hi!''\<rparr>, \<lparr>tok_text = ascii ''You''\<rparr>]\<rparr>
     = ascii ''hi you''"
proof -
  have h: "\<forall>c. u_isspace ucd c \<longrightarrow> \<not> u_isalnum ucd c"
    by (auto simp: ucd_def ucd_isspace_def ucd_isalnum_def)
  let ?s = "\<lparr>sent_position = 1, sent_text = ascii ''Hi! ... You'', sent_tokens = []\<rparr>"
  note t = token_cleaning [OF h, of "\<lparr>tok_text = ascii ''...''\<rparr>" _
                           "[\<lparr>tok_text = ascii ''Hi!''\<rparr>]" "[\<lparr>tok_text = ascii ''You''\<rparr>]"]
  have e: "get_cleaned ucd \<lparr>tok_text = ascii ''...''\<rparr> = []"
    using t by blast
  have a: "get_cleaned ucd \<lparr>tok_text = ascii ''Hi!''\<rparr> = ascii ''hi''"
    using token_cleaning [OF h, of "\<lparr>tok_text = ascii ''Hi!''\<rparr>"]
    by (simp add: ucd_def ucd_lower_char_def ucd_isalnum_def ascii_def)
  have b: "get_cleaned ucd \<lparr>tok_text = ascii ''You''\<rparr> = ascii ''you''"
    using token_cleaning [OF h, of "\<lparr>tok_text = ascii ''You''\<rparr>"]
    by (simp add: ucd_def ucd_lower_char_def ucd_isalnum_def ascii_def)
  have two: "get_cleaned_sentence ucd (?s\<lparr>sent_tokens :=
               [\<lparr>tok_text = ascii ''Hi!''\<rparr>] @ [\<lparr>tok_text = ascii ''You''\<rparr>]\<rparr>) = ascii ''hi you''"
    using token_cleaning [OF h, of _ "?s\<lparr>sent_tokens :=
               [\<lparr>tok_text = ascii ''Hi!''\<rparr>] @ [\<lparr>tok_text = ascii ''You''\<rparr>]\<rparr>"]
    by (simp add: get_tokens_def a b) (simp add: ascii_def)
  have three: "get_cleaned_sentence ucd (?s\<lparr>sent_tokens :=
               [\<lparr>tok_text = ascii ''Hi!''\<rparr>] @ \<lparr>tok_text = ascii ''...''\<rparr> # [\<lparr>tok_text = ascii ''You''\<rparr>]\<rparr>)
             = ascii ''hi you''"
    using t [of ?s] e two by simp
  from e two three show ?thesis by simp
qed

text \<open>
  C10. \<open>get_conllu_text\<close> returns the same string as \<open>get_cleaned_sentence\<close> for every
  sentence and for both values of \<open>include_morphological_tags\<close>: the flag is never read.
\<close>

theorem conllu_text_is_cleaned_sentence:
  "get_conllu_text U s include_morphological_tags = get_cleaned_sentence U s"
  by (simp add: get_conllu_text_def get_cleaned_sentence_def)

section \<open>Validation of the configuration\<close>

lemma validate_seed_urls_iff:
  "validate_seed_urls us =
     (if list_all seed_url_ok us then Inr () else Inl IncorrectSeedURLError)"
  by (induction us rule: validate_seed_urls.induct) simp_all

lemma count_wellformed_iff:
  "count_wellformed v = (isinstance_int v \<and> \<not> isinstance_bool v \<and> \<not> int_value v < 1)"
  by (cases v) auto

lemma timeout_ok_iff:
  "timeout_ok L v =
     (isinstance_int v \<and> \<not> int_value v < TIMEOUT_LOWER_LIMIT L
      \<and> \<not> int_value v > TIMEOUT_UPPER_LIMIT L)"
  by (cases v) auto

lemma validate_chain:
  "validate_config_content L c =
    (if \<not> seed_urls_ok (seed_urls c) then Inl IncorrectSeedURLError
     else if \<not> count_wellformed (total_articles c) then Inl IncorrectNumberOfArticlesError
     else if int_value (total_articles c) > NUM_ARTICLES_UPPER_LIMIT L
       then Inl NumberOfArticlesOutOfRangeError
     else if \<not> isinstance_dict (headers c) then Inl IncorrectHeadersError
     else if \<not> isinstance_str (encoding c) then Inl IncorrectEncodingError
     else if \<not> timeout_ok L (timeout c) then Inl IncorrectTimeoutError
     else if \<not> (isinstance_bool (should_verify_certificate c) \<and> isinstance_bool (headless_mode c))
       then Inl IncorrectVerifyError
     else Inr ())"
proof (cases "seed_urls c")
  case (PList us)
  show ?thesis
  proof (cases "list_all seed_url_ok us")
    case True
    then show ?thesis
      unfolding validate_config_content_def count_wellformed_iff timeout_ok_iff
      by (simp add: PList validate_seed_urls_iff)
  next
    case False
    then show ?thesis
      by (simp add: validate_config_content_def PList validate_seed_urls_iff)
  qed
qed (simp_all add: validate_config_content_def)

text \<open>
  C3. The result of the validation is decided by the first requirement that fails, in
  the order seed URLs, article count, upper limit of the count, headers, encoding,
  timeout, flags, each with its own exception; it succeeds when none fails. In
  particular, with valid seed URLs, a count that is a boolean, a float, a string, absent,
  or an integer below 1 raises \<open>IncorrectNumberOfArticlesError\<close>, and an integer count of
  at least 1 above the limit raises \<open>NumberOfArticlesOutOfRangeError\<close>, a different
  exception.
\<close>

theorem validate_config_first_violation:
  "validate_config_content L c =
    (if \<not> seed_urls_ok (seed_urls c) then Inl IncorrectSeedURLError
     else if \<not> count_wellformed (total_articles c) then Inl IncorrectNumberOfArticlesError
     else if int_value (total_articles c) > NUM_ARTICLES_UPPER_LIMIT L
       then Inl NumberOfArticlesOutOfRangeError
     else if \<not> isinstance_dict (headers c) then Inl IncorrectHeadersError
     else if \<not> isinstance_str (encoding c) then Inl IncorrectEncodingError
     else if \<not> timeout_ok L (timeout c) then Inl IncorrectTimeoutError
     else if \<not> (isinstance_bool (should_verify_certificate c) \<and> isinstance_bool (headless_mode c))
       then Inl IncorrectVerifyError
     else Inr ())
   \<and> (seed_urls_ok (seed_urls c) \<longrightarrow>
        (total_articles c = PBool b \<or> total_articles c = PFloat \<or> total_articles c = PStr s
         \<or> total_articles c = PNone \<or> total_articles c = PList vs
         \<or> total_articles c = PDict kvs \<or> (total_articles c = PInt n \<and> n < 1)) \<longrightarrow>
        validate_config_content L c = Inl IncorrectNumberOfArticlesError)
   \<and> (seed_urls_ok (seed_urls c) \<longrightarrow>
        total_articles c = PInt n \<longrightarrow> 1 \<le> n \<longrightarrow> n > NUM_ARTICLES_UPPER_LIMIT L \<longrightarrow>
        validate_config_content L c = Inl NumberOfArticlesOutOfRangeError)
   \<and> IncorrectNumberOfArticlesError \<noteq> NumberOfArticlesOutOfRangeError"
proof -
  have 2: "validate_config_content L c = Inl IncorrectNumberOfArticlesError"
    if "seed_urls_ok (seed_urls c)"
      and "total_articles c = PBool b \<or> total_articles c = PFloat \<or> total_articles c = PStr s
         \<or> total_articles c = PNone \<or> total_articles c = PList vs
         \<or> total_articles c = PDict kvs \<or> (total_articles c = PInt n \<and> n < 1)"
  proof -
    from that(2) have "\<not> count_wellformed (total_articles c)" by auto
    with that(1) show ?thesis by (simp add: validate_chain)
  qed
  have 3: "validate_config_content L c = Inl NumberOfArticlesOutOfRangeError"
    if "seed_urls_ok (seed_urls c)" "total_articles c = PInt n" "1 \<le> n"
      "n > NUM_ARTICLES_UPPER_LIMIT L"
    using that by (simp add: validate_chain)
  show ?thesis
    using validate_chain [of L c] 2 3 by blast
qed

text \<open>
  The theorem at three configurations for the limits 150, 0 and 60: a valid one, one
  with the count \<open>True\<close>, one with the count 151.
\<close>

theorem validate_config_first_violation_witness:
  "validate_config_content
       \<lparr>NUM_ARTICLES_UPPER_LIMIT = 150, TIMEOUT_LOWER_LIMIT = 0, TIMEOUT_UPPER_LIMIT = 60\<rparr>
       \<lparr>seed_urls = PList [PStr (ascii ''https://krsk.sibnovosti.ru/news/'')],
        total_articles = PInt 10, headers = PDict [], encoding = PStr (ascii ''utf-8''),
        timeout = PInt 5, should_verify_certificate = PBool True,
        headless_mode = PBool False\<rparr> = Inr ()
   \<and> validate_config_content
       \<lparr>NUM_ARTICLES_UPPER_LIMIT = 150, TIMEOUT_LOWER_LIMIT = 0, TIMEOUT_UPPER_LIMIT = 60\<rparr>
       \<lparr>seed_urls = PList [PStr (ascii ''https://krsk.sibnovosti.ru/news/'')],
        total_articles = PBool True, headers = PNone, encoding = PStr (ascii ''utf-8''),
        timeout = PInt 5, should_verify_certificate = PBool True,
        headless_mode = PBool False\<rparr> = Inl IncorrectNumberOfArticlesError
   \<and> validate_config_content
       \<lparr>NUM_ARTICLES_UPPER_LIMIT = 150, TIMEOUT_LOWER_LIMIT = 0, TIMEOUT_UPPER_LIMIT = 60\<rparr>
       \<lparr>seed_urls = PList [PStr (ascii ''https://krsk.sibnovosti.ru/news/'')],
        total_articles = PInt 151, headers = PNone, encoding = PStr (ascii ''utf-8''),
        timeout = PInt 5, should_verify_certificate = PBool True,
        headless_mode = PBool False\<rparr> = Inl NumberOfArticlesOutOfRangeError"
proof -
  let ?L = "\<lparr>NUM_ARTICLES_UPPER_LIMIT = 150, TIMEOUT_LOWER_LIMIT = 0, TIMEOUT_UPPER_LIMIT = 60\<rparr>"
  let ?u = "PList [PStr (ascii ''https://krsk.sibnovosti.ru/news/'')]"
  have u: "seed_urls_ok ?u"
    by (simp add: seed_url_match_def match_after_scheme_def startswith_def ascii_def)
  let ?a = "\<lparr>seed_urls = ?u,
        total_articles = PInt 10, headers = PDict [], encoding = PStr (ascii ''utf-8''),
        timeout = PInt 5, should_verify_certificate = PBool True,
        headless_mode = PBool False\<rparr>"
  let ?b = "\<lparr>seed_urls = ?u,
        total_articles = PBool True, headers = PNone, encoding = PStr (ascii ''utf-8''),
        timeout = PInt 5, should_verify_certificate = PBool True,
        headless_mode = PBool False\<rparr>"
  let ?c = "\<lparr>seed_urls = ?u,
        total_articles = PInt 151, headers = PNone, encoding = PStr (ascii ''utf-8''),
        timeout = PInt 5, should_verify_certificate = PBool True,
        headless_mode = PBool False\<rparr>"
  have a: "validate_config_content ?L ?a = Inr ()"
    using validate_config_first_violation [of ?L ?a] u by simp
  have b: "validate_config_content ?L ?b = Inl IncorrectNumberOfArticlesError"
    using validate_config_first_violation [of ?L ?b True] u by simp
  have c: "validate_config_content ?L ?c = Inl NumberOfArticlesOutOfRangeError"
    using validate_config_first_violation [where L = ?L and c = ?c and n = 151] u by simp
  from a b c show ?thesis by blast
qed

section \<open>Link discovery\<close>








text \<open>
  C2. The test for a link already collected compares the \<open>href\<close> as extracted with the
  entries of \<open>self.urls\<close>, which are stored with the site prefix in front. A page that
  links \<open>/a\<close> twice therefore yields the same URL twice.
\<close>

theorem find_articles_duplicate:
  "urls (snd (find_articles
       (\<lambda>seed. Inr [\<lparr>href = Some (ascii ''/a'')\<rparr>, \<lparr>href = Some (ascii ''/a'')\<rparr>])
       (Crawler_init \<lparr>cfg_seed_urls = [ascii ''https://krsk.sibnovosti.ru/news/''],
                      cfg_num_articles = 2\<rparr>)))
     = [ascii ''https://krsk.sibnovosti.ru/a'', ascii ''https://krsk.sibnovosti.ru/a'']"
  by (simp add: find_articles_def Crawler_init_def get_num_articles_def get_seed_urls_def
      extract_url_def ascii_def Let_def)

section \<open>The corpus manager\<close>

lemma check_sizes_iff:
  "check_sizes fs = (if list_all (\<lambda>f. st_size f \<noteq> 0) fs then Inr () else Inl InconsistentDatasetError)"
  by (induction fs) simp_all

lemma sort_is_range:
  "(sort ids = [1 .. int (length ids)]) = (distinct ids \<and> set ids = {1 .. int (length ids)})"
proof
  assume a: "sort ids = [1 .. int (length ids)]"
  have "distinct (sort ids)" unfolding a by simp
  moreover have "set (sort ids) = {1 .. int (length ids)}" unfolding a by simp
  ultimately show "distinct ids \<and> set ids = {1 .. int (length ids)}" by simp
next
  assume "distinct ids \<and> set ids = {1 .. int (length ids)}"
  then show "sort ids = [1 .. int (length ids)]"
    by (intro sorted_distinct_set_unique) simp_all
qed

lemma scan_loop_ids:
  "list_of_ids U fs = Inr ids \<Longrightarrow>
   \<exists>storage. scan_loop U m fs = Inr storage \<and> dom storage = dom m \<union> set ids"
proof (induction fs arbitrary: ids m)
  case Nil
  then show ?case by simp
next
  case (Cons f fs)
  from Cons.prems obtain i ids' where i: "id_of_name U (entry_name f) = Inr i"
    and r: "list_of_ids U fs = Inr ids'" and ids: "ids = i # ids'"
    by (auto split: sum.splits)
  let ?a = "(Article_init None i)\<lparr>art_text := entry_text f\<rparr>"
  from Cons.IH [OF r, of "m(i \<mapsto> ?a)"] obtain storage
    where "scan_loop U (m(i \<mapsto> ?a)) fs = Inr storage" "dom storage = dom (m(i \<mapsto> ?a)) \<union> set ids'"
    by blast
  then show ?case
    using i ids by (auto simp: from_raw_def Article_init_def)
qed

lemma scan_loop_keeps:
  "list_of_ids U fs = Inr ids \<Longrightarrow> scan_loop U m fs = Inr storage \<Longrightarrow> k \<notin> set ids \<Longrightarrow>
   storage k = m k"
proof (induction fs arbitrary: ids m)
  case Nil
  then show ?case by simp
next
  case (Cons f fs)
  from Cons.prems(1) obtain i ids' where i: "id_of_name U (entry_name f) = Inr i"
    and r: "list_of_ids U fs = Inr ids'" and ids: "ids = i # ids'"
    by (auto split: sum.splits)
  let ?a = "(Article_init None i)\<lparr>art_text := entry_text f\<rparr>"
  have s: "scan_loop U (m(i \<mapsto> ?a)) fs = Inr storage"
    using Cons.prems(2) i by (simp add: from_raw_def Article_init_def)
  have "k \<notin> set ids'" "k \<noteq> i" using Cons.prems(3) ids by auto
  with Cons.IH [OF r s] show ?case by simp
qed

lemma scan_loop_loads:
  "list_of_ids U fs = Inr ids \<Longrightarrow> distinct ids \<Longrightarrow> scan_loop U m fs = Inr storage \<Longrightarrow>
   f \<in> set fs \<Longrightarrow>
   \<exists>i. id_of_name U (entry_name f) = Inr i \<and>
       storage i = Some ((Article_init None i)\<lparr>art_text := entry_text f\<rparr>)"
proof (induction fs arbitrary: ids m)
  case Nil
  then show ?case by simp
next
  case (Cons g fs)
  from Cons.prems(1) obtain i ids' where i: "id_of_name U (entry_name g) = Inr i"
    and r: "list_of_ids U fs = Inr ids'" and ids: "ids = i # ids'"
    by (auto split: sum.splits)
  let ?a = "(Article_init None i)\<lparr>art_text := entry_text g\<rparr>"
  have s: "scan_loop U (m(i \<mapsto> ?a)) fs = Inr storage"
    using Cons.prems(3) i by (simp add: from_raw_def Article_init_def)
  have d: "distinct ids'" "i \<notin> set ids'" using Cons.prems(2) ids by auto
  show ?case
  proof (cases "f \<in> set fs")
    case True
    from Cons.IH [OF r d(1) s True] show ?thesis .
  next
    case False
    with Cons.prems(4) have "f = g" by simp
    moreover have "storage i = Some ?a"
      using scan_loop_keeps [OF r s d(2)] by simp
    ultimately show ?thesis using i by blast
  qed
qed


text \<open>
  C1. For a directory with at least one entry: when no raw file is empty and the IDs
  read from the names of the \<open>N\<close> raw files are \<open>1, ..., N\<close>, each once, the manager is
  constructed and its storage holds exactly the IDs \<open>1, ..., N\<close>, each with the record of
  its file; when a raw file has size zero, or the IDs read have a gap or a duplicate,
  construction raises \<open>InconsistentDatasetError\<close>. For the empty directory it raises
  \<open>EmptyDirectoryError\<close>.
\<close>

theorem corpus_manager_validation:
  "(path = Directory es \<longrightarrow> es \<noteq> [] \<longrightarrow>
      list_all (\<lambda>f. st_size f \<noteq> 0) (glob_raw path) \<longrightarrow>
      list_of_ids U (glob_raw path) = Inr ids \<longrightarrow>
      distinct ids \<longrightarrow> set ids = {1 .. int (length ids)} \<longrightarrow>
      (\<exists>storage. CorpusManager_init U path = Inr storage
         \<and> dom storage = {1 .. int (length ids)}
         \<and> (\<forall>f \<in> set (glob_raw path). \<exists>i. id_of_name U (entry_name f) = Inr i
               \<and> storage i = Some ((Article_init None i)\<lparr>art_text := entry_text f\<rparr>))))
   \<and> (path = Directory es \<longrightarrow> \<not> list_all (\<lambda>f. st_size f \<noteq> 0) (glob_raw path) \<longrightarrow>
      CorpusManager_init U path = Inl InconsistentDatasetError)
   \<and> (path = Directory es \<longrightarrow>
      list_all (\<lambda>f. st_size f \<noteq> 0) (glob_raw path) \<longrightarrow>
      list_of_ids U (glob_raw path) = Inr ids \<longrightarrow>
      \<not> (distinct ids \<and> set ids = {1 .. int (length ids)}) \<longrightarrow>
      CorpusManager_init U path = Inl InconsistentDatasetError)
   \<and> CorpusManager_init U (Directory []) = Inl EmptyDirectoryError"
proof -
  have 1: "\<exists>storage. CorpusManager_init U path = Inr storage
         \<and> dom storage = {1 .. int (length ids)}
         \<and> (\<forall>f \<in> set (glob_raw path). \<exists>i. id_of_name U (entry_name f) = Inr i
               \<and> storage i = Some ((Article_init None i)\<lparr>art_text := entry_text f\<rparr>))"
    if p: "path = Directory es" "es \<noteq> []"
      and sz: "list_all (\<lambda>f. st_size f \<noteq> 0) (glob_raw path)"
      and ids: "list_of_ids U (glob_raw path) = Inr ids"
      and d: "distinct ids" and r: "set ids = {1 .. int (length ids)}"
  proof -
    have v: "validate_dataset U path = Inr ()"
      using p sz ids d r
      by (simp add: validate_dataset_def check_sizes_iff sort_is_range del: glob_raw.simps)
    from scan_loop_ids [OF ids, of Map.empty] obtain storage
      where s: "scan_loop U Map.empty (glob_raw path) = Inr storage" "dom storage = set ids"
      by auto
    have "\<forall>f \<in> set (glob_raw path). \<exists>i. id_of_name U (entry_name f) = Inr i
               \<and> storage i = Some ((Article_init None i)\<lparr>art_text := entry_text f\<rparr>)"
      using scan_loop_loads [OF ids d s(1)] by blast
    with s r v show ?thesis
      by (simp add: CorpusManager_init_def scan_dataset_def)
  qed
  have 2: "CorpusManager_init U path = Inl InconsistentDatasetError"
    if "path = Directory es" "\<not> list_all (\<lambda>f. st_size f \<noteq> 0) (glob_raw path)"
  proof -
    from that have "es \<noteq> []" by auto
    with that show ?thesis
      by (simp add: CorpusManager_init_def validate_dataset_def check_sizes_iff
          del: glob_raw.simps)
  qed
  have 3: "CorpusManager_init U path = Inl InconsistentDatasetError"
    if p: "path = Directory es"
      and sz: "list_all (\<lambda>f. st_size f \<noteq> 0) (glob_raw path)"
      and ids: "list_of_ids U (glob_raw path) = Inr ids"
      and n: "\<not> (distinct ids \<and> set ids = {1 .. int (length ids)})"
  proof -
    have "ids \<noteq> []" using n by auto
    with ids have "glob_raw path \<noteq> []" by auto
    with p have "es \<noteq> []" by auto
    with p sz ids n show ?thesis
      by (simp add: CorpusManager_init_def validate_dataset_def check_sizes_iff sort_is_range
          del: glob_raw.simps)
  qed
  have 4: "CorpusManager_init U (Directory []) = Inl EmptyDirectoryError"
    by (simp add: CorpusManager_init_def validate_dataset_def)
  from 1 2 3 4 show ?thesis by blast
qed


text \<open>
  The theorem at three directories: raw files 2, 1, 3 beside a metadata file; raw files
  1, 2, 4; raw files 1, 2 with the second of size zero.
\<close>

theorem corpus_manager_validation_witness:
  "(\<exists>storage. CorpusManager_init ucd (Directory
       [\<lparr>entry_name = ascii ''2_raw.txt'', st_size = 3, entry_text = ascii ''two''\<rparr>,
        \<lparr>entry_name = ascii ''1_raw.txt'', st_size = 3, entry_text = ascii ''one''\<rparr>,
        \<lparr>entry_name = ascii ''1_meta.json'', st_size = 2, entry_text = ascii ''{}''\<rparr>,
        \<lparr>entry_name = ascii ''3_raw.txt'', st_size = 5, entry_text = ascii ''three''\<rparr>])
       = Inr storage \<and> dom storage = {1, 2, 3})
   \<and> CorpusManager_init ucd (Directory
       [\<lparr>entry_name = ascii ''1_raw.txt'', st_size = 3, entry_text = ascii ''one''\<rparr>,
        \<lparr>entry_name = ascii ''2_raw.txt'', st_size = 3, entry_text = ascii ''two''\<rparr>,
        \<lparr>entry_name = ascii ''4_raw.txt'', st_size = 4, entry_text = ascii ''four''\<rparr>])
       = Inl InconsistentDatasetError
   \<and> CorpusManager_init ucd (Directory
       [\<lparr>entry_name = ascii ''1_raw.txt'', st_size = 3, entry_text = ascii ''one''\<rparr>,
        \<lparr>entry_name = ascii ''2_raw.txt'', st_size = 0, entry_text = []\<rparr>])
       = Inl InconsistentDatasetError"
proof -
  let ?a = "[\<lparr>entry_name = ascii ''2_raw.txt'', st_size = 3, entry_text = ascii ''two''\<rparr>,
        \<lparr>entry_name = ascii ''1_raw.txt'', st_size = 3, entry_text = ascii ''one''\<rparr>,
        \<lparr>entry_name = ascii ''1_meta.json'', st_size = 2, entry_text = ascii ''{}''\<rparr>,
        \<lparr>entry_name = ascii ''3_raw.txt'', st_size = 5, entry_text = ascii ''three''\<rparr>]"
  let ?b = "[\<lparr>entry_name = ascii ''1_raw.txt'', st_size = 3, entry_text = ascii ''one''\<rparr>,
        \<lparr>entry_name = ascii ''2_raw.txt'', st_size = 3, entry_text = ascii ''two''\<rparr>,
        \<lparr>entry_name = ascii ''4_raw.txt'', st_size = 4, entry_text = ascii ''four''\<rparr>]"
  let ?c = "[\<lparr>entry_name = ascii ''1_raw.txt'', st_size = 3, entry_text = ascii ''one''\<rparr>,
        \<lparr>entry_name = ascii ''2_raw.txt'', st_size = 0, entry_text = []\<rparr>]"
  note ev = endswith_def ascii_def id_of_name_def py_int_def py_strip_def ucd_def
    ucd_isspace_def ucd_decimal_def
  have ga: "glob_raw (Directory ?a) =
       [\<lparr>entry_name = ascii ''2_raw.txt'', st_size = 3, entry_text = ascii ''two''\<rparr>,
        \<lparr>entry_name = ascii ''1_raw.txt'', st_size = 3, entry_text = ascii ''one''\<rparr>,
        \<lparr>entry_name = ascii ''3_raw.txt'', st_size = 5, entry_text = ascii ''three''\<rparr>]"
    by (simp add: endswith_def ascii_def)
  have ia: "list_of_ids ucd (glob_raw (Directory ?a)) = Inr [2, 1, 3]"
    unfolding ga by (simp add: ev)
  have sa: "list_all (\<lambda>f. st_size f \<noteq> 0) (glob_raw (Directory ?a))"
    unfolding ga by simp
  have ra: "set [2, 1, 3 :: int] = {1 .. int (length [2, 1, 3 :: int])}"
    by (simp add: set_eq_iff) presburger
  have a: "\<exists>storage. CorpusManager_init ucd (Directory ?a) = Inr storage
      \<and> dom storage = {1, 2, 3}"
  proof -
    from corpus_manager_validation [of "Directory ?a" ?a ucd "[2, 1, 3]"] sa ia ra
    obtain storage where "CorpusManager_init ucd (Directory ?a) = Inr storage"
      "dom storage = {1 .. int (length [2, 1, 3 :: int])}"
      by auto
    moreover have "{1 .. int (length [2, 1, 3 :: int])} = {1, 2, 3}"
      using ra by auto
    ultimately show ?thesis by auto
  qed
  have gb: "glob_raw (Directory ?b) = ?b"
    by (simp add: endswith_def ascii_def)
  have ib: "list_of_ids ucd (glob_raw (Directory ?b)) = Inr [1, 2, 4]"
    unfolding gb by (simp add: ev)
  have sb: "list_all (\<lambda>f. st_size f \<noteq> 0) (glob_raw (Directory ?b))"
    unfolding gb by simp
  have rb: "\<not> (distinct [1, 2, 4 :: int]
      \<and> set [1, 2, 4 :: int] = {1 .. int (length [1, 2, 4 :: int])})"
    by (simp add: set_eq_iff) presburger
  have b: "CorpusManager_init ucd (Directory ?b) = Inl InconsistentDatasetError"
    using corpus_manager_validation [of "Directory ?b" ?b ucd "[1, 2, 4]"] sb ib rb by blast
  have gc: "glob_raw (Directory ?c) = ?c"
    by (simp add: endswith_def ascii_def)
  have sc: "\<not> list_all (\<lambda>f. st_size f \<noteq> 0) (glob_raw (Directory ?c))"
    unfolding gc by simp
  have c: "CorpusManager_init ucd (Directory ?c) = Inl InconsistentDatasetError"
    using corpus_manager_validation [of "Directory ?c" ?c ucd] sc by blast
  from a b c show ?thesis by blast
qed

section \<open>The date of an article\<close>

lemma date_loop_parts:
  "date_loop U (m, d, t) toks =
     (m @ concat (map (\<lambda>e. case map_of months_collection e of Some v \<Rightarrow> v | None \<Rightarrow> []) toks),
      d @ concat (map (\<lambda>e. if py_isdigit U e
                              then (if e \<in> set digits then ascii ''0'' @ e else e) else []) toks),
      t @ concat (map (\<lambda>e. if 0x3A \<in> set e then e else []) toks))"
  by (induction toks arbitrary: m d t) (auto simp: Let_def split: option.splits)

lemma split_scan_tokens:
  "\<forall>c \<in> set cur. \<not> u_isspace U c \<Longrightarrow>
   \<forall>tok \<in> set (split_scan U cur s). tok \<noteq> [] \<and> (\<forall>c \<in> set tok. \<not> u_isspace U c)"
proof (induction s arbitrary: cur)
  case Nil
  then show ?case by simp
next
  case (Cons c cs)
  have nil: "\<forall>tok \<in> set (split_scan U [] cs). tok \<noteq> [] \<and> (\<forall>c \<in> set tok. \<not> u_isspace U c)"
    by (rule Cons.IH) simp
  show ?case
  proof (cases "u_isspace U c")
    case True
    with nil Cons.prems show ?thesis by simp
  next
    case False
    with Cons.prems have "\<forall>x \<in> set (cur @ [c]). \<not> u_isspace U x" by simp
    from Cons.IH [OF this] False show ?thesis by simp
  qed
qed

lemma py_split_tokens:
  "tok \<in> set (py_split U s) \<Longrightarrow> tok \<noteq> [] \<and> (\<forall>c \<in> set tok. \<not> u_isspace U c)"
  using split_scan_tokens [of "[]" U s] by (simp add: py_split_def)

lemma match_atoms_drop:
  "match_atoms U as s = Some rest \<Longrightarrow> rest = drop (length as) s"
  by (induction U as s rule: match_atoms.induct) (auto split: if_splits)

lemma first_some_Some:
  "first_some f xs = Some y \<Longrightarrow> \<exists>x \<in> set xs. f x = Some y"
  by (induction xs) (auto split: option.splits)

lemma match_items_needs_lit:
  "match_items U items s = Some (groups, r) \<Longrightarrow> One (Lit c) \<in> set items \<Longrightarrow> c \<in> set s"
proof (induction U items s arbitrary: groups r rule: match_items.induct)
  case (1 U s)
  then show ?case by simp
next
  case (2 U alts items s)
  from 2(2) obtain alt where alt: "alt \<in> set alts"
    and f: "(case match_atoms U alt s of
                None \<Rightarrow> None
              | Some rest \<Rightarrow>
                  (case match_items U items rest of
                     None \<Rightarrow> None
                   | Some (groups, r) \<Rightarrow> Some (take (length alt) s # groups, r))) = Some (groups, r)"
    by (auto dest!: first_some_Some)
  then obtain rest g where rest: "match_atoms U alt s = Some rest"
    and m: "match_items U items rest = Some (g, r)"
    by (auto split: option.splits)
  from 2(3) have "One (Lit c) \<in> set items" by simp
  from 2(1) [OF rest m this] have "c \<in> set rest" .
  with match_atoms_drop [OF rest] show ?case by (auto dest: in_set_dropD)
next
  case (3 U a items s)
  from 3(2) obtain rest where rest: "match_atoms U [a] s = Some rest"
    and m: "match_items U items rest = Some (groups, r)"
    by (auto split: option.splits)
  show ?case
  proof (cases "One (Lit c) = One a")
    case True
    with rest show ?thesis by (cases s) (auto split: if_splits)
  next
    case False
    with 3(3) have "One (Lit c) \<in> set items" by auto
    from 3(1) [OF rest m this] have "c \<in> set rest" .
    with match_atoms_drop [OF rest] show ?thesis by (auto dest: in_set_dropD)
  qed
next
  case (4 U a items s)
  from 4(2) obtain n where m: "match_items U items (drop n s) = Some (groups, r)"
    and n: "n \<in> set (rev [1 ..< Suc (length (takeWhile (atom_ok U a) s))])"
    by (auto dest!: first_some_Some)
  from 4(3) have "One (Lit c) \<in> set items" by simp
  from 4(1) [OF m this] show ?case by (auto dest: in_set_dropD)
qed

lemma strptime_needs_colon:
  "0x3A \<notin> set s \<Longrightarrow> strptime U s = Inl ValueError"
proof -
  assume a: "0x3A \<notin> set s"
  have "One (Lit 0x3A) \<in> set format_regex"
    by (simp add: format_regex_def)
  with a have "match_items U format_regex s = None"
    by (cases "match_items U format_regex s") (auto dest: match_items_needs_lit)
  then show ?thesis by (simp add: strptime_def)
qed


lemma months_values:
  "map_of months_collection e = Some v \<Longrightarrow> \<forall>c \<in> set v. 0x30 \<le> c \<and> c \<le> 0x39"
proof -
  assume "map_of months_collection e = Some v"
  then have "(e, v) \<in> set months_collection" by (rule map_of_SomeD)
  moreover have "\<forall>p \<in> set months_collection. \<forall>c \<in> set (snd p). 0x30 \<le> c \<and> c \<le> 0x39"
    by (simp add: months_collection_def ascii_def)
  ultimately show ?thesis by fastforce
qed

lemma month_part_digits:
  "\<forall>c \<in> set (concat (map (\<lambda>e. case map_of months_collection e of Some v \<Rightarrow> v | None \<Rightarrow> []) toks)).
     0x30 \<le> c \<and> c \<le> 0x39"
proof (induction toks)
  case Nil
  then show ?case by simp
next
  case (Cons e toks)
  show ?case
  proof (cases "map_of months_collection e")
    case None
    with Cons show ?thesis by simp
  next
    case (Some v)
    with Cons months_values [OF Some] show ?thesis by auto
  qed
qed

lemma match_year_dash:
  "match_items U items rest = None \<Longrightarrow>
   match_items U (Group [[AnyDigit, AnyDigit, AnyDigit, AnyDigit]] # One (Lit 0x2D) # items)
     (a # b # c # d # 0x2D # rest) = None"
  by simp

lemma match_month_dash:
  assumes "\<forall>c \<in> set month. c \<noteq> 0x2D"
    and "match_items U items rest = None"
  shows "match_items U
     (Group [[Lit 0x31, Range 0x30 0x32], [Lit 0x30, Range 0x31 0x39], [Range 0x31 0x39]]
      # One (Lit 0x2D) # items) (month @ 0x2D # rest) = None"
proof (cases month)
  case Nil
  then show ?thesis by simp
next
  case m1: (Cons a ms)
  show ?thesis
  proof (cases ms)
    case Nil
    with m1 assms show ?thesis by simp
  next
    case m2: (Cons b ms2)
    show ?thesis
    proof (cases ms2)
      case Nil
      with m1 m2 assms show ?thesis by simp
    next
      case (Cons c ms3)
      with m1 m2 assms show ?thesis by simp
    qed
  qed
qed

lemma match_day_space:
  assumes "\<forall>c \<in> set time. \<not> u_isspace U c"
  shows "match_items U
     (Group [[Lit 0x33, Range 0x30 0x31], [Range 0x31 0x32, AnyDigit],
             [Lit 0x30, Range 0x31 0x39], [Range 0x31 0x39], [Lit 0x20, Range 0x31 0x39]]
      # Many1 AnySpace # items) (0x20 # time) = None"
proof (cases time)
  case Nil
  then show ?thesis by simp
next
  case (Cons c cs)
  with assms have "takeWhile (u_isspace U) cs = []"
    by (cases cs) auto
  then have "takeWhile (atom_ok U AnySpace) cs = []"
    by (simp add: fun_eq_iff cong: takeWhile_cong)
  with Cons show ?thesis by simp
qed


lemma correct_date_parts:
  "correct_date U date_str =
     [0x32, 0x30, 0x32, 0x33, 0x2D] @
     concat (map (\<lambda>e. case map_of months_collection e of Some v \<Rightarrow> v | None \<Rightarrow> [])
               (py_split U (u_lower U date_str))) @
     [0x2D] @
     take 2 (concat (map (\<lambda>e. if py_isdigit U e
                                  then (if e \<in> set digits then ascii ''0'' @ e else e) else [])
                       (py_split U (u_lower U date_str)))) @
     [0x20] @
     concat (map (\<lambda>e. if 0x3A \<in> set e then e else []) (py_split U (u_lower U date_str)))"
  by (simp add: correct_date_def date_loop_parts ascii_def)

lemma no_month_fails:
  assumes "\<forall>e \<in> set (py_split U (u_lower U date_str)). map_of months_collection e = None"
  shows "unify_date_format U date_str = Inl ValueError"
proof -
  have "concat (map (\<lambda>e. case map_of months_collection e of Some v \<Rightarrow> v | None \<Rightarrow> [])
               (py_split U (u_lower U date_str))) = []"
    using assms by simp
  then obtain rest where "correct_date U date_str = [0x32, 0x30, 0x32, 0x33, 0x2D, 0x2D] @ rest"
    by (simp add: correct_date_parts)
  then have "match_items U format_regex (correct_date U date_str) = None"
    by (simp add: format_regex_def)
  then show ?thesis by (simp add: unify_date_format_def strptime_def)
qed

lemma no_time_fails:
  assumes "\<forall>e \<in> set (py_split U (u_lower U date_str)). 0x3A \<notin> set e"
  shows "unify_date_format U date_str = Inl ValueError"
proof -
  let ?toks = "py_split U (u_lower U date_str)"
  let ?M = "concat (map (\<lambda>e. case map_of months_collection e of Some v \<Rightarrow> v | None \<Rightarrow> []) ?toks)"
  let ?D = "concat (map (\<lambda>e. if py_isdigit U e
                                  then (if e \<in> set digits then ascii ''0'' @ e else e) else []) ?toks)"
  let ?T = "concat (map (\<lambda>e. if 0x3A \<in> set e then e else []) ?toks)"
  have m: "0x3A \<notin> set ?M"
    using month_part_digits [of ?toks] by fastforce
  have "0x3A \<notin> set ?D"
    using assms by (auto simp: ascii_def split: if_splits)
  then have d: "0x3A \<notin> set (take 2 ?D)"
    by (auto dest: in_set_takeD)
  have t: "?T = []"
    using assms by simp
  have "0x3A \<notin> set (correct_date U date_str)"
    unfolding correct_date_parts t using m d by simp
  then show ?thesis
    unfolding unify_date_format_def by (rule strptime_needs_colon)
qed

lemma no_day_fails:
  assumes "\<forall>e \<in> set (py_split U (u_lower U date_str)). \<not> py_isdigit U e"
  shows "unify_date_format U date_str = Inl ValueError"
proof -
  let ?toks = "py_split U (u_lower U date_str)"
  let ?M = "concat (map (\<lambda>e. case map_of months_collection e of Some v \<Rightarrow> v | None \<Rightarrow> []) ?toks)"
  let ?D = "concat (map (\<lambda>e. if py_isdigit U e
                                  then (if e \<in> set digits then ascii ''0'' @ e else e) else []) ?toks)"
  let ?T = "concat (map (\<lambda>e. if 0x3A \<in> set e then e else []) ?toks)"
  have d: "?D = []"
    using assms by simp
  have m: "\<forall>c \<in> set ?M. c \<noteq> 0x2D"
    using month_part_digits [of ?toks] by fastforce
  have t: "\<forall>c \<in> set ?T. \<not> u_isspace U c"
    using py_split_tokens [of _ U "u_lower U date_str"] by (auto split: if_splits)
  have c: "correct_date U date_str = 0x32 # 0x30 # 0x32 # 0x33 # 0x2D # (?M @ 0x2D # 0x20 # ?T)"
    unfolding correct_date_parts d by simp
  have "match_items U format_regex (correct_date U date_str) = None"
    unfolding c format_regex_def
    by (intro match_year_dash match_month_dash match_day_space m t)
  then show ?thesis by (simp add: unify_date_format_def strptime_def)
qed

text \<open>
  C5, as amended. With the tokens of the lowercased input: when no token is a month
  name of the table, or no token contains a colon, or no token at all is numeric
  (\<open>isdigit\<close>), the result of \<open>unify_date_format\<close> is the \<open>ValueError\<close> of \<open>strptime\<close>;
  no timestamp is returned.
\<close>

theorem malformed_date_fails:
  "((\<forall>e \<in> set (py_split U (u_lower U date_str)). map_of months_collection e = None) \<longrightarrow>
      unify_date_format U date_str = Inl ValueError)
   \<and> ((\<forall>e \<in> set (py_split U (u_lower U date_str)). 0x3A \<notin> set e) \<longrightarrow>
      unify_date_format U date_str = Inl ValueError)
   \<and> ((\<forall>e \<in> set (py_split U (u_lower U date_str)). \<not> py_isdigit U e) \<longrightarrow>
      unify_date_format U date_str = Inl ValueError)"
  using no_month_fails [of U date_str] no_time_fails [of U date_str] no_day_fails [of U date_str]
  by blast


lemma day_part_filter:
  "concat (map (\<lambda>e. if py_isdigit U e
                      then (if e \<in> set digits then ascii ''0'' @ e else e) else []) toks)
   = concat (map (\<lambda>e. if e \<in> set digits then ascii ''0'' @ e else e)
                 (filter (py_isdigit U) toks))"
  by (induction toks) simp_all

lemma day_field_filter:
  "day_field U date_str =
     take 2 (concat (map (\<lambda>e. if e \<in> set digits then ascii ''0'' @ e else e)
                         (filter (py_isdigit U) (py_split U (u_lower U date_str)))))"
  by (simp add: day_field_def date_loop_parts day_part_filter)

lemmas ucd_eval = ucd_def ucd_lower_char_def ucd_isspace_def ucd_isdigit_def ucd_decimal_def
  ascii_def py_split_def py_strip_def py_isdigit_def

lemma split_example:
  "py_split ucd (u_lower ucd (ascii ''14:30 5 '' @ [0x43C, 0x430, 0x440, 0x442, 0x430]))
     = [ascii ''14:30'', ascii ''5'', [0x43C, 0x430, 0x440, 0x442, 0x430]]"
  by (simp add: ucd_eval)

lemma correct_date_example:
  "correct_date ucd (ascii ''14:30 5 '' @ [0x43C, 0x430, 0x440, 0x442, 0x430])
     = ascii ''2023-03-05 14:30''"
  unfolding correct_date_def split_example
  by (simp add: ucd_eval months_collection_def digits_def Let_def)

lemma strptime_example:
  "strptime ucd (ascii ''2023-03-05 14:30'')
     = Inr \<lparr>dt_year = 2023, dt_month = 3, dt_day = 5, dt_hour = 14, dt_minute = 30\<rparr>"
  by (simp add: strptime_def format_regex_def ucd_eval py_int_def days_in_month_def is_leap_def)


text \<open>
  C4, as amended. \<open>unify_date_format\<close> of \<open>14:30 5 marta\<close>, the month written in
  Cyrillic (U+043C U+0430 U+0440 U+0442 U+0430), is 5 March 2023, 14:30. When the first
  numeric token of the input is one character of \<open>'1'\<close> to \<open>'9'\<close>, the day field
  \<open>day[:2]\<close> is \<open>'0'\<close> followed by that character. A single numeric token of one
  character that is not in that list, such as \<open>'0'\<close>, is the day field as it is.
  The day field stands between the second hyphen and the space of \<open>correct_date\<close>.
\<close>

theorem unify_date_zero_padding:
  "unify_date_format ucd (ascii ''14:30 5 '' @ [0x43C, 0x430, 0x440, 0x442, 0x430])
     = Inr \<lparr>dt_year = 2023, dt_month = 3, dt_day = 5, dt_hour = 14, dt_minute = 30\<rparr>
   \<and> (filter (py_isdigit U) (py_split U (u_lower U date_str)) = [d] # others \<longrightarrow>
        [d] \<in> set digits \<longrightarrow> day_field U date_str = [0x30, d])
   \<and> (filter (py_isdigit U) (py_split U (u_lower U date_str)) = [[d]] \<longrightarrow>
        [d] \<notin> set digits \<longrightarrow> day_field U date_str = [d])
   \<and> (\<exists>month time. correct_date U date_str =
        ascii ''2023-'' @ month @ ascii ''-'' @ day_field U date_str @ ascii '' '' @ time)"
proof -
  have 1: "unify_date_format ucd (ascii ''14:30 5 '' @ [0x43C, 0x430, 0x440, 0x442, 0x430])
     = Inr \<lparr>dt_year = 2023, dt_month = 3, dt_day = 5, dt_hour = 14, dt_minute = 30\<rparr>"
    unfolding unify_date_format_def correct_date_example by (rule strptime_example)
  have 2: "day_field U date_str = [0x30, d]"
    if "filter (py_isdigit U) (py_split U (u_lower U date_str)) = [d] # others" "[d] \<in> set digits"
    using that by (simp add: day_field_filter ascii_def)
  have 3: "day_field U date_str = [d]"
    if "filter (py_isdigit U) (py_split U (u_lower U date_str)) = [[d]]" "[d] \<notin> set digits"
    using that by (simp add: day_field_filter)
  have 4: "\<exists>month time. correct_date U date_str =
        ascii ''2023-'' @ month @ ascii ''-'' @ day_field U date_str @ ascii '' '' @ time"
    by (cases "date_loop U ([], [], []) (py_split U (u_lower U date_str))")
       (auto simp: correct_date_def day_field_def ascii_def)
  from 1 2 3 4 show ?thesis by blast
qed

text \<open>The theorem at the day tokens \<open>5\<close> and \<open>0\<close>.\<close>

theorem unify_date_zero_padding_witness:
  "day_field ucd (ascii ''14:30 5 '' @ [0x43C, 0x430, 0x440, 0x442, 0x430]) = ascii ''05''
   \<and> day_field ucd (ascii ''14:30 0 '' @ [0x43C, 0x430, 0x440, 0x442, 0x430]) = ascii ''0''"
proof -
  let ?s = "ascii ''14:30 5 '' @ [0x43C, 0x430, 0x440, 0x442, 0x430]"
  let ?z = "ascii ''14:30 0 '' @ [0x43C, 0x430, 0x440, 0x442, 0x430]"
  have f: "filter (py_isdigit ucd) (py_split ucd (u_lower ucd ?s)) = [0x35] # []"
    by (simp add: ucd_eval)
  have d: "[0x35] \<in> set digits"
    by (simp add: digits_def ascii_def)
  have a: "day_field ucd ?s = ascii ''05''"
    using unify_date_zero_padding [of ucd ?s "0x35" "[]"] f d by (simp add: ascii_def)
  have g: "filter (py_isdigit ucd) (py_split ucd (u_lower ucd ?z)) = [[0x30]]"
    by (simp add: ucd_eval)
  have n: "[0x30] \<notin> set digits"
    by (simp add: digits_def ascii_def)
  have b: "day_field ucd ?z = ascii ''0''"
    using unify_date_zero_padding [of ucd ?z "0x30" "[]"] g n by (simp add: ascii_def)
  from a b show ?thesis by blast
qed

text \<open>
  The day token \<open>0\<close> is a single digit and is not padded: the day field has one
  character.
\<close>

theorem unify_date_zero_not_padded:
  "py_split ucd (u_lower ucd (ascii ''14:30 0 '' @ [0x43C, 0x430, 0x440, 0x442, 0x430]))
     = [ascii ''14:30'', ascii ''0'', [0x43C, 0x430, 0x440, 0x442, 0x430]]
   \<and> day_field ucd (ascii ''14:30 0 '' @ [0x43C, 0x430, 0x440, 0x442, 0x430]) = ascii ''0''
   \<and> length (day_field ucd (ascii ''14:30 0 '' @ [0x43C, 0x430, 0x440, 0x442, 0x430])) \<noteq> 2
   \<and> correct_date ucd (ascii ''14:30 0 '' @ [0x43C, 0x430, 0x440, 0x442, 0x430])
       = ascii ''2023-03-0 14:30''"
proof -
  let ?z = "ascii ''14:30 0 '' @ [0x43C, 0x430, 0x440, 0x442, 0x430]"
  have s: "py_split ucd (u_lower ucd ?z)
     = [ascii ''14:30'', ascii ''0'', [0x43C, 0x430, 0x440, 0x442, 0x430]]"
    by (simp add: ucd_eval)
  have d: "day_field ucd ?z = ascii ''0''"
    unfolding day_field_def s
    by (simp add: ucd_eval months_collection_def digits_def Let_def)
  have c: "correct_date ucd ?z = ascii ''2023-03-0 14:30''"
    unfolding correct_date_def s
    by (simp add: ucd_eval months_collection_def digits_def Let_def)
  from s d c show ?thesis by (simp add: ascii_def)
qed

text \<open>
  The theorem on malformed dates at an input without a month, one without a time and
  one whose day \<open>5th\<close> is not numeric.
\<close>

theorem malformed_date_fails_witness:
  "unify_date_format ucd (ascii ''14:30 5'') = Inl ValueError
   \<and> unify_date_format ucd (ascii ''5 '' @ [0x43C, 0x430, 0x440, 0x442, 0x430]) = Inl ValueError
   \<and> unify_date_format ucd (ascii ''14:30 5th '' @ [0x43C, 0x430, 0x440, 0x442, 0x430])
       = Inl ValueError"
proof -
  let ?a = "ascii ''14:30 5''"
  let ?b = "ascii ''5 '' @ [0x43C, 0x430, 0x440, 0x442, 0x430]"
  let ?c = "ascii ''14:30 5th '' @ [0x43C, 0x430, 0x440, 0x442, 0x430]"
  have sa: "py_split ucd (u_lower ucd ?a) = [ascii ''14:30'', ascii ''5'']"
    by (simp add: ucd_eval)
  have ha: "\<forall>e \<in> set (py_split ucd (u_lower ucd ?a)). map_of months_collection e = None"
    unfolding sa by (simp add: months_collection_def ascii_def)
  have a: "unify_date_format ucd ?a = Inl ValueError"
    using malformed_date_fails [of ucd ?a] ha by blast
  have sb: "py_split ucd (u_lower ucd ?b) = [ascii ''5'', [0x43C, 0x430, 0x440, 0x442, 0x430]]"
    by (simp add: ucd_eval)
  have hb: "\<forall>e \<in> set (py_split ucd (u_lower ucd ?b)). 0x3A \<notin> set e"
    unfolding sb by (simp add: ascii_def)
  have b: "unify_date_format ucd ?b = Inl ValueError"
    using malformed_date_fails [of ucd ?b] hb by blast
  have sc: "py_split ucd (u_lower ucd ?c)
      = [ascii ''14:30'', ascii ''5th'', [0x43C, 0x430, 0x440, 0x442, 0x430]]"
    by (simp add: ucd_eval)
  have hc: "\<forall>e \<in> set (py_split ucd (u_lower ucd ?c)). \<not> py_isdigit ucd e"
    unfolding sc by (simp add: ucd_eval)
  have c: "unify_date_format ucd ?c = Inl ValueError"
    using malformed_date_fails [of ucd ?c] hc by blast
  from a b c show ?thesis by blast
qed

text \<open>
  An input whose day \<open>5th\<close> is not numeric, followed by the year 2021: the year is the
  only numeric token, its first two characters become the day field, and a timestamp
  is returned, 20 March 2023 14:30.
\<close>

theorem stray_number_taken_as_day:
  "py_split ucd (u_lower ucd
       (ascii ''14:30 5th '' @ [0x43C, 0x430, 0x440, 0x442, 0x430] @ ascii '' 2021''))
     = [ascii ''14:30'', ascii ''5th'', [0x43C, 0x430, 0x440, 0x442, 0x430], ascii ''2021'']
   \<and> \<not> py_isdigit ucd (ascii ''5th'')
   \<and> unify_date_format ucd
       (ascii ''14:30 5th '' @ [0x43C, 0x430, 0x440, 0x442, 0x430] @ ascii '' 2021'')
     = Inr \<lparr>dt_year = 2023, dt_month = 3, dt_day = 20, dt_hour = 14, dt_minute = 30\<rparr>"
proof -
  let ?s = "ascii ''14:30 5th '' @ [0x43C, 0x430, 0x440, 0x442, 0x430] @ ascii '' 2021''"
  have s: "py_split ucd (u_lower ucd ?s)
     = [ascii ''14:30'', ascii ''5th'', [0x43C, 0x430, 0x440, 0x442, 0x430], ascii ''2021'']"
    by (simp add: ucd_eval)
  have n: "\<not> py_isdigit ucd (ascii ''5th'')"
    by (simp add: ucd_eval)
  have c: "correct_date ucd ?s = ascii ''2023-03-20 14:30''"
    unfolding correct_date_def s
    by (simp add: ucd_eval months_collection_def digits_def Let_def)
  have p: "strptime ucd (ascii ''2023-03-20 14:30'')
     = Inr \<lparr>dt_year = 2023, dt_month = 3, dt_day = 20, dt_hour = 14, dt_minute = 30\<rparr>"
    by (simp add: strptime_def format_regex_def ucd_eval py_int_def days_in_month_def is_leap_def)
  have u: "unify_date_format ucd ?s
     = Inr \<lparr>dt_year = 2023, dt_month = 3, dt_day = 20, dt_hour = 14, dt_minute = 30\<rparr>"
    unfolding unify_date_format_def c by (rule p)
  from s n u show ?thesis by blast
qed

section \<open>The author of an article\<close>

text \<open>
  C7, as amended. When the title element and the byline element are found, the author
  field after \<open>_fill_article_with_meta_information\<close> is \<open>["NOT FOUND"]\<close> if the text of
  the byline is empty and otherwise the list of that text alone, exactly as extracted
  (it is not trimmed); it is never the empty list. This holds whether or not a later
  step of the method raises.
\<close>

theorem author_field:
  "find_title article_soup = Some title_text \<longrightarrow> find_author article_soup = Some author_text \<longrightarrow>
     art_author (snd (fill_article_with_meta_information U article_soup article))
       = (if author_text = [] then [ascii ''NOT FOUND''] else [author_text])
     \<and> art_author (snd (fill_article_with_meta_information U article_soup article)) \<noteq> []"
  by (simp add: fill_article_with_meta_information_def Let_def split: option.splits sum.splits)

text \<open>The theorem at a page with an empty byline and at one with the byline \<open>" Ivan "\<close>.\<close>

theorem author_field_witness:
  "art_author (snd (fill_article_with_meta_information ucd
       \<lparr>find_title = Some (ascii '' News ''), find_author = Some [],
        find_active = Some (ascii ''Sport''), find_year = None, find_hour = None\<rparr>
       (Article_init (Some (ascii ''https://krsk.sibnovosti.ru/a'')) 1)))
     = [ascii ''NOT FOUND'']
   \<and> art_author (snd (fill_article_with_meta_information ucd
       \<lparr>find_title = Some (ascii '' News ''), find_author = Some (ascii '' Ivan ''),
        find_active = Some (ascii ''Sport''), find_year = None, find_hour = None\<rparr>
       (Article_init (Some (ascii ''https://krsk.sibnovosti.ru/a'')) 1)))
     = [ascii '' Ivan '']"
proof -
  have a: "art_author (snd (fill_article_with_meta_information ucd
       \<lparr>find_title = Some (ascii '' News ''), find_author = Some [],
        find_active = Some (ascii ''Sport''), find_year = None, find_hour = None\<rparr>
       (Article_init (Some (ascii ''https://krsk.sibnovosti.ru/a'')) 1)))
     = [ascii ''NOT FOUND'']"
    using author_field [of "\<lparr>find_title = Some (ascii '' News ''), find_author = Some [],
        find_active = Some (ascii ''Sport''), find_year = None, find_hour = None\<rparr>"
        "ascii '' News ''" "[]" ucd]
    by simp
  have i: "ascii '' Ivan '' \<noteq> []"
    by (simp add: ascii_def)
  have b: "art_author (snd (fill_article_with_meta_information ucd
       \<lparr>find_title = Some (ascii '' News ''), find_author = Some (ascii '' Ivan ''),
        find_active = Some (ascii ''Sport''), find_year = None, find_hour = None\<rparr>
       (Article_init (Some (ascii ''https://krsk.sibnovosti.ru/a'')) 1)))
     = [ascii '' Ivan '']"
    using author_field [of "\<lparr>find_title = Some (ascii '' News ''),
        find_author = Some (ascii '' Ivan ''),
        find_active = Some (ascii ''Sport''), find_year = None, find_hour = None\<rparr>"
        "ascii '' News ''" "ascii '' Ivan ''" ucd] i
    by simp
  from a b show ?thesis by blast
qed

text \<open>
  For the byline \<open>" Ivan "\<close> the author field keeps the spaces; the trimmed text would
  be \<open>"Ivan"\<close>.
\<close>

theorem author_not_trimmed:
  "art_author (snd (fill_article_with_meta_information ucd
       \<lparr>find_title = Some (ascii '' News ''), find_author = Some (ascii '' Ivan ''),
        find_active = Some (ascii ''Sport''),
        find_year = Some (ascii ''5 '' @ [0x43C, 0x430, 0x440, 0x442, 0x430]),
        find_hour = Some (ascii ''14:30,'')\<rparr>
       (Article_init (Some (ascii ''https://krsk.sibnovosti.ru/a'')) 1)))
     = [ascii '' Ivan '']
   \<and> py_strip ucd (ascii '' Ivan '') = ascii ''Ivan''
   \<and> [ascii '' Ivan ''] \<noteq> [py_strip ucd (ascii '' Ivan '')]"
proof -
  have a: "art_author (snd (fill_article_with_meta_information ucd
       \<lparr>find_title = Some (ascii '' News ''), find_author = Some (ascii '' Ivan ''),
        find_active = Some (ascii ''Sport''),
        find_year = Some (ascii ''5 '' @ [0x43C, 0x430, 0x440, 0x442, 0x430]),
        find_hour = Some (ascii ''14:30,'')\<rparr>
       (Article_init (Some (ascii ''https://krsk.sibnovosti.ru/a'')) 1)))
     = [ascii '' Ivan '']"
    by (simp add: fill_article_with_meta_information_def Let_def ascii_def
        split: option.splits sum.splits)
  have b: "py_strip ucd (ascii '' Ivan '') = ascii ''Ivan''"
    by (simp add: py_strip_def ucd_def ucd_isspace_def ascii_def)
  have c: "[ascii '' Ivan ''] \<noteq> [py_strip ucd (ascii '' Ivan '')]"
    unfolding b by (simp add: ascii_def)
  from a b c show ?thesis by blast
qed

section \<open>Positions of sentences\<close>

text \<open>
  C6. The position of a sentence is \<open>sentences.index(sentence) + 1\<close>, the place of the
  first sentence with the same text. For a text of the three sentences \<open>Da.\<close>, \<open>Net.\<close>,
  \<open>Da.\<close> (in Cyrillic) the positions are 1, 2, 1 and not 1, 2, 3.
\<close>

theorem process_repeated_sentence:
  "(case process ucd
       (\<lambda>text. [[0x414, 0x430, 0x2E], [0x41D, 0x435, 0x442, 0x2E], [0x414, 0x430, 0x2E]])
       [0x414, 0x430, 0x2E, 0x20, 0x41D, 0x435, 0x442, 0x2E, 0x20, 0x414, 0x430, 0x2E] of
      Inl e \<Rightarrow> []
    | Inr conllu_sentences \<Rightarrow> map sent_position conllu_sentences) = [1, 2, 1]"
  by (simp add: process_def Let_def)

end
